theory Spec2Isabelle
  imports Main
begin

section \<open>The composition root of go-evepraisal: \<^verbatim>\<open>evepraisal/app.go\<close>\<close>

text \<open>
  The file wires the application together: it opens the data stores and fetchers, installs
  the refresh callback that swaps the type database and the parser chain, starts the
  listeners and tears everything down when the interrupt arrives.  The model follows
  the file statement by statement.  External calls (constructors, \<^verbatim>\<open>Close\<close>,
  \<^verbatim>\<open>ListenAndServe\<close>) return what an environment record says they return, every
  \<^verbatim>\<open>log.Fatalf\<close> is an early exit of the model, and everything the process does to
  the outside is appended to a trace of events.
\<close>

subsection \<open>Data\<close>

text \<open>A \<^verbatim>\<open>typedb.TypeDB\<close> value is an interface holding a pointer; the model keeps its
  handle.  A nil interface is \<open>None\<close> of \<open>typedb option\<close>.\<close>

type_synonym typedb = nat

text \<open>The members of the parser list of lines 108-124, in the order of the source.  The last
  two are built from the type database handed to the callback.\<close>

datatype parser =
    ParseKillmail
  | ParseEFT
  | ParseFitting
  | ParseLootHistory
  | ParsePI
  | ParseViewContents
  | ParseWallet
  | ParseSurveyScan
  | ParseContract
  | ParseAssets
  | ParseIndustry
  | ParseCargoScan
  | ParseDScan
  | ContextListingParser typedb
  | HeuristicParser typedb

text \<open>The value of \<^verbatim>\<open>evepraisal.NewContextMultiParser(typeDB, parserList)\<close>: a closure
  over its two arguments.\<close>

datatype multi_parser = ContextMultiParser typedb "parser list"

text \<open>The fields of \<^verbatim>\<open>evepraisal.App\<close> that the refresh callback writes.  Both are nil
  in the struct literal of lines 87-90.\<close>

record App =
  TypeDB :: "typedb option"
  Parser :: "multi_parser option"

datatype listener = HTTPS | HTTP | Management

datatype resource =
    PriceDB
  | HTTPCache
  | PriceFetcher
  | AppraisalDB
  | StaticFetcher
  | TypeDBHandle typedb
  | Server listener

text \<open>What the process does to the outside and to the memory its goroutines share, in the
  order in which it happens.  \<open>Opened r\<close>: the constructor of \<open>r\<close> returned without error
  (for a server: the server was created and its serving goroutine started).
  \<open>Closed r\<close>: \<^verbatim>\<open>Close()\<close> was called on \<open>r\<close>.  \<open>ShutdownCalled l t\<close> and
  \<open>ShutdownReturned l t timedOut\<close>: \<^verbatim>\<open>server.Shutdown(stopCtx)\<close> was entered and
  left at time \<open>t\<close> (milliseconds), the latter with the context's error or with nil.
  \<open>SetTypeDB t\<close> and \<open>SetParser p\<close>: the fields \<^verbatim>\<open>app.TypeDB\<close> and
  \<^verbatim>\<open>app.Parser\<close>, which the request handlers read, were assigned.\<close>

datatype event =
    Println string
  | Fatalf string
  | Opened resource
  | Closed resource
  | ShutdownCalled listener nat
  | ShutdownReturned listener nat bool
  | SetTypeDB typedb
  | SetParser multi_parser

record proc =
  app :: App
  trace :: "event list"

subsection \<open>The refresh callback (lines 103-131)\<close>

text \<open>The three parts of the callback's body, each a state transformer; the callback is their
  composition.  The statements are kept apart because other goroutines (the request
  handlers) read \<^verbatim>\<open>app\<close> without any lock while the callback runs.\<close>

definition parserList :: "typedb \<Rightarrow> parser list" where
  "parserList typeDB =
     [ParseKillmail, ParseEFT, ParseFitting, ParseLootHistory, ParsePI, ParseViewContents,
      ParseWallet, ParseSurveyScan, ParseContract, ParseAssets, ParseIndustry,
      ParseCargoScan, ParseDScan, ContextListingParser typeDB, HeuristicParser typeDB]"

text \<open>Line 105: \<^verbatim>\<open>app.TypeDB = typeDB\<close>.\<close>

definition assignTypeDB :: "typedb \<Rightarrow> 'a proc_scheme \<Rightarrow> 'a proc_scheme" where
  "assignTypeDB typeDB s =
     s\<lparr>app := (app s)\<lparr>TypeDB := Some typeDB\<rparr>, trace := trace s @ [SetTypeDB typeDB]\<rparr>"

text \<open>Lines 106-124: \<^verbatim>\<open>app.Parser = evepraisal.NewContextMultiParser(typeDB, ...)\<close>.\<close>

definition assignParser :: "typedb \<Rightarrow> 'a proc_scheme \<Rightarrow> 'a proc_scheme" where
  "assignParser typeDB s =
     s\<lparr>app := (app s)\<lparr>Parser := Some (ContextMultiParser typeDB (parserList typeDB))\<rparr>,
       trace := trace s @ [SetParser (ContextMultiParser typeDB (parserList typeDB))]\<rparr>"

text \<open>Lines 126-130: the old type database, when there was one, is closed at once; the
  error that \<^verbatim>\<open>Close\<close> returns is dropped.\<close>

definition closeOldTypeDB :: "typedb option \<Rightarrow> 'a proc_scheme \<Rightarrow> 'a proc_scheme" where
  "closeOldTypeDB oldTypeDB s =
     (case oldTypeDB of
        None \<Rightarrow> s
      | Some old \<Rightarrow>
          s\<lparr>trace := trace s @
             [Println ''closeing old typedb'', Closed (TypeDBHandle old),
              Println ''closed old typedb'']\<rparr>)"

definition typeDBCallback :: "typedb \<Rightarrow> 'a proc_scheme \<Rightarrow> 'a proc_scheme" where
  "typeDBCallback typeDB s =
     (let oldTypeDB = TypeDB (app s)
      in closeOldTypeDB oldTypeDB (assignParser typeDB (assignTypeDB typeDB s)))"

text \<open>The type databases a parser chain reads: the one the multi parser closes over and the
  ones its context-bound members close over.\<close>

fun parser_typedbs :: "parser \<Rightarrow> typedb set" where
  "parser_typedbs (ContextListingParser t) = {t}"
| "parser_typedbs (HeuristicParser t) = {t}"
| "parser_typedbs _ = {}"

fun bound_typedbs :: "multi_parser \<Rightarrow> typedb set" where
  "bound_typedbs (ContextMultiParser t ps) = {t} \<union> (\<Union>p \<in> set ps. parser_typedbs p)"

text \<open>What a reader of \<^verbatim>\<open>app\<close> can reach at one moment: the type database in
  \<^verbatim>\<open>app.TypeDB\<close> and those behind \<^verbatim>\<open>app.Parser\<close>.\<close>

definition visible_typedbs :: "App \<Rightarrow> typedb set" where
  "visible_typedbs a =
     (case TypeDB a of None \<Rightarrow> {} | Some t \<Rightarrow> {t}) \<union>
     (case Parser a of None \<Rightarrow> {} | Some p \<Rightarrow> bound_typedbs p)"

definition typedb_closed :: "'a proc_scheme \<Rightarrow> typedb \<Rightarrow> bool" where
  "typedb_closed s t = (Closed (TypeDBHandle t) \<in> set (trace s))"




text \<open>The application as the struct literal of lines 87-90 leaves it, and the process in
  which generation 0 is installed and open: the state after the first run of the
  callback.\<close>

definition fresh :: proc where
  "fresh = \<lparr>app = \<lparr>TypeDB = None, Parser = None\<rparr>, trace = []\<rparr>"

definition installed0 :: proc where
  "installed0 = typeDBCallback 0 fresh"

subsection \<open>The refresh cycle\<close>

text \<open>Modelled from the spec: the refresh cycle of the hot-swap controller, which lives in
  package \<^verbatim>\<open>staticdump\<close> (\<^verbatim>\<open>NewStaticFetcher\<close> and the loop it starts) and is
  not part of this file.  Section 4.2 of the specification: the new snapshot is built off
  to the side; if the build fails the install is skipped, the previous snapshot stays
  current and the failure is reported without being fatal; if it succeeds the snapshot
  is handed to the callback.  The result of the build is \<open>Inl\<close> of the failure or
  \<open>Inr\<close> of the new type database.\<close>

definition refresh :: "string + typedb \<Rightarrow> 'a proc_scheme \<Rightarrow> 'a proc_scheme" where
  "refresh built s =
     (case built of
        Inl failure \<Rightarrow> s\<lparr>trace := trace s @ [Println failure]\<rparr>
      | Inr typeDB \<Rightarrow> typeDBCallback typeDB s)"

text \<open>The refresh callbacks that run while a request is in flight, one after the other.\<close>

fun installs :: "typedb list \<Rightarrow> 'a proc_scheme \<Rightarrow> 'a proc_scheme" where
  "installs [] s = s"
| "installs (typeDB # rest) s = installs rest (typeDBCallback typeDB s)"

subsection \<open>The classification dispatcher\<close>

text \<open>Modelled from the spec: the dispatch loop inside the closure that
  \<^verbatim>\<open>evepraisal.NewContextMultiParser\<close> returns, and the parsers of package
  \<^verbatim>\<open>parsers\<close>; neither is part of this file, which only builds the chain.  Section
  4.1 of the specification: a recognizer is a capability
  \<^verbatim>\<open>attempt(rawText, snapshot) -> (items, recognized)\<close>; the dispatcher walks the
  registered sequence in registration order and, on the first recognizer that reports
  recognized, stops and returns its items tagged with its identity; a recognizer that
  raises an internal error counts as declined; the fallback heuristic recognizer comes
  last; when all decline the result is "not recognized".  The behaviour of the
  recognizers is the parameter \<open>attempt\<close>: \<open>Inl\<close> is an internal error, \<open>Inr\<close> the
  pair of the items and the recognized flag.  The identity of a recognizer is its entry
  in the parser list.\<close>

datatype 'items DispatchResult = Recognized 'items parser | Unrecognized

type_synonym 'items attempt = "parser \<Rightarrow> string \<Rightarrow> typedb \<Rightarrow> string + ('items \<times> bool)"

fun dispatch :: "'items attempt \<Rightarrow> parser list \<Rightarrow> string \<Rightarrow> typedb \<Rightarrow> 'items DispatchResult" where
  "dispatch attempt [] rawText snapshot = Unrecognized"
| "dispatch attempt (p # ps) rawText snapshot =
     (case attempt p rawText snapshot of
        Inl internal_error \<Rightarrow> dispatch attempt ps rawText snapshot
      | Inr (items, recognized) \<Rightarrow>
          if recognized then Recognized items p else dispatch attempt ps rawText snapshot)"

text \<open>A recognizer recognizes a text: it returns without internal error and reports
  recognized.\<close>

definition recognizes :: "'items attempt \<Rightarrow> string \<Rightarrow> typedb \<Rightarrow> parser \<Rightarrow> bool" where
  "recognizes attempt rawText snapshot p =
     (case attempt p rawText snapshot of
        Inl internal_error \<Rightarrow> False
      | Inr (items, recognized) \<Rightarrow> recognized)"





definition two_match :: "string list attempt" where
  "two_match p rawText snapshot =
     (case p of
        ParseKillmail \<Rightarrow> Inl ''malformed''
      | ParseFitting \<Rightarrow> Inr ([''fitting''], True)
      | HeuristicParser t \<Rightarrow> Inr ([''heuristic''], True)
      | _ \<Rightarrow> Inr ([], False))"

subsection \<open>The environment of \<^verbatim>\<open>appMain\<close>\<close>

text \<open>The error values of \<^verbatim>\<open>ListenAndServe\<close> that the file tells apart; a nil error is
  \<open>None\<close> of \<open>go_error option\<close>.\<close>

datatype go_error = ErrServerClosed | OtherError string

fun Error :: "go_error \<Rightarrow> string" where
  "Error ErrServerClosed = ''http: Server closed''"
| "Error (OtherError text) = text"

text \<open>\<^verbatim>\<open>%s\<close> of a slice of strings: the elements between brackets, a space between them.\<close>

fun join_spaces :: "string list \<Rightarrow> string" where
  "join_spaces [] = []"
| "join_spaces [x] = x"
| "join_spaces (x # y # rest) = x @ '' '' @ join_spaces (y # rest)"

definition format_strings :: "string list \<Rightarrow> string" where
  "format_strings xs = ''['' @ join_spaces xs @ '']''"

text \<open>Everything the file asks the outside world.  \<open>open_err e r\<close> is the error the
  constructor of \<open>r\<close> returns, \<open>close_err e r n\<close> the error of the call of
  \<^verbatim>\<open>Close\<close> on \<open>r\<close> that comes after \<open>n\<close> earlier ones, \<open>serve_err e l\<close> what
  \<^verbatim>\<open>ListenAndServe\<close> of listener \<open>l\<close> returns when it cannot serve (\<open>None\<close>: it
  binds and serves until the server is shut down or closed).  \<open>scheduled_after e l\<close> is
  the scheduler's choice for the serving goroutine of \<open>l\<close>: how many times it is passed
  over, once \<^verbatim>\<open>ListenAndServe\<close> has returned, before the rest of the goroutine's
  body runs.  \<open>refreshes e\<close> are the type databases the static fetcher
  hands to the callback while the process runs, \<open>stop_at e\<close> the time (milliseconds
  since process start) at which the interrupt arrives, \<open>inflight e l\<close> the times at
  which the requests in flight on \<open>l\<close> would finish.\<close>

record env =
  open_err :: "resource \<Rightarrow> string option"
  close_err :: "resource \<Rightarrow> nat \<Rightarrow> string option"
  newrelic_license_key :: string
  newrelic_err :: "string option"
  https_addr :: string
  https_domain_whitelist :: "string list"
  http_addr :: string
  management_addr :: string
  serve_err :: "listener \<Rightarrow> go_error option"
  scheduled_after :: "listener \<Rightarrow> nat"
  refreshes :: "typedb list"
  stop_at :: nat
  inflight :: "listener \<Rightarrow> nat list"

subsection \<open>Contexts and \<^verbatim>\<open>Shutdown\<close>\<close>

text \<open>A context made by \<^verbatim>\<open>context.WithTimeout\<close>: it is done from its deadline on, or
  from the moment its cancel function is called.\<close>

record ctx =
  deadline :: nat
  cancelled_at :: nat

definition done_at :: "ctx \<Rightarrow> nat" where
  "done_at c = min (deadline c) (cancelled_at c)"

text \<open>\<^verbatim>\<open>(*http.Server).Shutdown(ctx)\<close> of the standard library, as its documentation
  has it: the listeners are closed, then the call waits until every connection is idle
  and returns nil, or until the context is done and returns the context's error.
  Called at time \<open>t\<close> with requests that finish at the times \<open>finishing\<close>, it returns the
  time at which it returns and whether it returns the context's error.\<close>

definition Shutdown :: "ctx \<Rightarrow> nat \<Rightarrow> nat list \<Rightarrow> nat \<times> bool" where
  "Shutdown c t finishing =
     (let pending = filter (\<lambda>f. t < f) finishing;
          idle_at = fold max pending t
      in if pending = [] then (t, False)
         else if done_at c \<le> t then (t, True)
         else if idle_at \<le> done_at c then (idle_at, False)
         else (done_at c, True))"

subsection \<open>The state of \<^verbatim>\<open>appMain\<close>\<close>

text \<open>A deferred call.  \<open>DeferClose r fmt\<close> is the closure
  \<^verbatim>\<open>err := r.Close(); if err != nil { log.Fatalf(fmt, err) }\<close>,
  \<open>DeferCloseStaticFetcher\<close> the closure of lines 135-147, \<open>DeferShutdown l c\<close> the call
  \<^verbatim>\<open>server.Shutdown(stopCtx)\<close> of line 183, \<open>DeferCloseServer l\<close> the call
  \<^verbatim>\<open>mgmtServer.Close()\<close> of line 197.\<close>

datatype deferred =
    DeferClose resource string
  | DeferCloseStaticFetcher
  | DeferShutdown listener ctx
  | DeferCloseServer listener

text \<open>The state: the application and the trace, the clock, the stack of deferred calls (the
  most recent first), the slice \<^verbatim>\<open>servers\<close>, and the serving goroutines whose
  \<^verbatim>\<open>ListenAndServe\<close> has returned and whose body has not gone on yet: the listener,
  the error returned, and the number of turns of the scheduler that still pass it
  over.\<close>

record main_state = proc +
  now :: nat
  defers :: "deferred list"
  servers :: "listener list"
  goroutines :: "(listener \<times> go_error \<times> nat) list"

text \<open>A step either goes on with a new state or ends the process: \<^verbatim>\<open>log.Fatalf\<close>
  prints and calls \<^verbatim>\<open>os.Exit(1)\<close>, which runs no deferred call.  \<open>Inl\<close> carries the
  trace of the process that exited that way.\<close>

type_synonym step = "main_state \<Rightarrow> event list + main_state"

definition ok :: "(main_state \<Rightarrow> main_state) \<Rightarrow> step" where
  "ok f s = Inr (f s)"

definition emit :: "event \<Rightarrow> main_state \<Rightarrow> main_state" where
  "emit ev s = s\<lparr>trace := trace s @ [ev]\<rparr>"

definition println :: "string \<Rightarrow> main_state \<Rightarrow> main_state" where
  "println msg = emit (Println msg)"

definition fatalf :: "string \<Rightarrow> string \<Rightarrow> step" where
  "fatalf fmt err s = Inl (trace s @ [Fatalf (fmt @ err)])"

definition push_defer :: "deferred \<Rightarrow> main_state \<Rightarrow> main_state" where
  "push_defer d s = s\<lparr>defers := d # defers s\<rparr>"

definition sleep :: "nat \<Rightarrow> main_state \<Rightarrow> main_state" where
  "sleep ms s = s\<lparr>now := now s + ms\<rparr>"

text \<open>Blocking until something that happens at time \<open>t\<close>.\<close>

definition wait_until :: "nat \<Rightarrow> main_state \<Rightarrow> main_state" where
  "wait_until t s = s\<lparr>now := max (now s) t\<rparr>"

subsection \<open>The serving goroutines\<close>

fun listener_name :: "listener \<Rightarrow> string" where
  "listener_name HTTPS = ''HTTPS''"
| "listener_name HTTP = ''HTTP''"
| "listener_name Management = ''Management HTTP''"

text \<open>The body of the goroutine that serves a listener (lines 230-237, 250-257 and
  198-205), from the point at which \<^verbatim>\<open>ListenAndServe\<close> has returned \<open>err\<close>.\<close>

definition serve_goroutine :: "listener \<Rightarrow> go_error option \<Rightarrow> step" where
  "serve_goroutine l err s =
     (if err = Some ErrServerClosed then Inr (println (listener_name l @ '' server stopped'') s)
      else if err \<noteq> None then fatalf (listener_name l @ '' server failure: '') (Error (the err)) s
      else Inr s)"

text \<open>The goroutines run beside the main goroutine.  Between two statements of the main
  goroutine the scheduler has a turn: it lets those goroutines go on that it passes over no
  longer, in the order in which their \<^verbatim>\<open>ListenAndServe\<close> returned, and passes the
  others over once more.  A goroutine that goes on while the main goroutine is blocked in
  a statement is one that goes on before that statement.\<close>

fun run_goroutines :: "(listener \<times> go_error \<times> nat) list \<Rightarrow> step" where
  "run_goroutines [] s = Inr s"
| "run_goroutines ((l, err, n) # rest) s =
     (if n = 0
      then (case serve_goroutine l (Some err) s of
              Inl fatal \<Rightarrow> Inl fatal
            | Inr s' \<Rightarrow> run_goroutines rest s')
      else run_goroutines rest (s\<lparr>goroutines := goroutines s @ [(l, err, n - 1)]\<rparr>))"

definition tick :: step where
  "tick s = run_goroutines (goroutines s) (s\<lparr>goroutines := []\<rparr>)"

text \<open>The statements of the main goroutine, one after the other, the scheduler having its
  say before each.\<close>

fun run :: "step list \<Rightarrow> step" where
  "run [] s = Inr s"
| "run (st # steps) s =
     (case tick s of
        Inl fatal \<Rightarrow> Inl fatal
      | Inr s1 \<Rightarrow> (case st s1 of Inl fatal \<Rightarrow> Inl fatal | Inr s2 \<Rightarrow> run steps s2))"

text \<open>\<^verbatim>\<open>go func() { err := server.ListenAndServe(); ... }()\<close>.  The statement starts the
  goroutine and the main goroutine goes on.  A listener that can serve keeps its goroutine
  inside \<^verbatim>\<open>ListenAndServe\<close>; one that cannot has its error returned, and the rest of
  the body waits for the scheduler.\<close>

definition start_serving :: "env \<Rightarrow> listener \<Rightarrow> main_state \<Rightarrow> main_state" where
  "start_serving e l s =
     (case serve_err e l of
        None \<Rightarrow> emit (Opened (Server l)) s
      | Some err \<Rightarrow>
          (emit (Opened (Server l)) s)
            \<lparr>goroutines := goroutines s @ [(l, err, scheduled_after e l)]\<rparr>)"

text \<open>\<^verbatim>\<open>Shutdown\<close> or \<^verbatim>\<open>Close\<close> has been called on the server of a listener: a
  goroutine that was inside \<^verbatim>\<open>ListenAndServe\<close> gets
  \<^verbatim>\<open>ErrServerClosed\<close> returned, and the rest of its body waits for the scheduler.\<close>

definition serving_ends :: "env \<Rightarrow> listener \<Rightarrow> main_state \<Rightarrow> main_state" where
  "serving_ends e l s =
     (case serve_err e l of
        None \<Rightarrow> s\<lparr>goroutines := goroutines s @ [(l, ErrServerClosed, scheduled_after e l)]\<rparr>
      | Some err \<Rightarrow> s)"

text \<open>The listeners whose \<^verbatim>\<open>ListenAndServe\<close> cannot serve, and those among the waiting
  goroutines that hold such an error.\<close>

definition cannot_serve :: "env \<Rightarrow> listener \<Rightarrow> bool" where
  "cannot_serve e l = (case serve_err e l of None \<Rightarrow> False | Some err \<Rightarrow> err \<noteq> ErrServerClosed)"

definition failed :: "main_state \<Rightarrow> listener list" where
  "failed s = map fst (filter (\<lambda>(l, err, n). err \<noteq> ErrServerClosed) (goroutines s))"

subsection \<open>Stores, fetchers and listeners\<close>

text \<open>\<^verbatim>\<open>x, err := New...(); if err != nil { log.Fatalf(fmt, err) }\<close>\<close>

definition open_or_fatal :: "env \<Rightarrow> resource \<Rightarrow> string \<Rightarrow> step" where
  "open_or_fatal e r fmt s =
     (case open_err e r of
        Some err \<Rightarrow> fatalf fmt err s
      | None \<Rightarrow> Inr (emit (Opened r) s))"

text \<open>\<^verbatim>\<open>err := x.Close(); if err != nil { log.Fatalf(fmt, err) }\<close>\<close>

definition close_or_fatal :: "env \<Rightarrow> resource \<Rightarrow> string \<Rightarrow> step" where
  "close_or_fatal e r fmt s =
     (case close_err e r (count_list (trace s) (Closed r)) of
        Some err \<Rightarrow> fatalf fmt err (emit (Closed r) s)
      | None \<Rightarrow> Inr (emit (Closed r) s))"

definition append_server :: "listener \<Rightarrow> main_state \<Rightarrow> main_state" where
  "append_server l s = s\<lparr>servers := servers s @ [l]\<rparr>"

text \<open>\<^verbatim>\<open>mustStartServers\<close> (lines 211-261).  The certificate manager and the server
  values have no effect of their own.\<close>

definition mustStartServers :: "env \<Rightarrow> step" where
  "mustStartServers e =
     run (ok (\<lambda>s. s\<lparr>servers := []\<rparr>) #
          (if https_addr e \<noteq> []
           then [ok (println (''Starting HTTPS server ('' @ https_addr e @ '') ('' @
                   format_strings (https_domain_whitelist e) @ '')'')),
                 ok (append_server HTTPS),
                 ok (start_serving e HTTPS),
                 ok (sleep 1000)]
           else []) @
          (if http_addr e \<noteq> []
           then [ok (println (''Starting HTTP server ('' @ http_addr e @ '')'')),
                 ok (append_server HTTP),
                 ok (start_serving e HTTP)]
           else []))"

text \<open>Lines 181-188: for every server a context with a timeout of five seconds is made
  there and then, the call of \<^verbatim>\<open>Shutdown\<close> with it is deferred, and a goroutine
  cancels the context ten seconds later.\<close>

fun defer_shutdowns :: "listener list \<Rightarrow> main_state \<Rightarrow> main_state" where
  "defer_shutdowns [] s = s"
| "defer_shutdowns (server # rest) s =
     defer_shutdowns rest
       (push_defer
          (DeferShutdown server \<lparr>deadline = now s + 5000, cancelled_at = now s + 10000\<rparr>) s)"

text \<open>Lines 207-208: the main goroutine blocks until the interrupt arrives.  The refresh
  callbacks of the static fetcher's goroutine run in the meantime.\<close>

definition wait_for_stop :: "env \<Rightarrow> main_state \<Rightarrow> main_state" where
  "wait_for_stop e s =
     println ''Shutting down'' (wait_until (stop_at e) (installs (refreshes e) s))"

subsection \<open>\<^verbatim>\<open>appMain\<close>\<close>

text \<open>Lines 92-100.\<close>

definition configure_newrelic :: "env \<Rightarrow> step" where
  "configure_newrelic e s =
     (if newrelic_license_key e \<noteq> []
      then (case newrelic_err e of
              Some err \<Rightarrow> fatalf ''Problem configuring new relic: '' err s
            | None \<Rightarrow> Inr s)
      else Inr s)"

definition initial :: main_state where
  "initial = \<lparr>app = \<lparr>TypeDB = None, Parser = None\<rparr>, trace = [], now = 0, defers = [],
     servers = [], goroutines = []\<rparr>"

text \<open>The body of \<^verbatim>\<open>appMain\<close> up to its last line.  Left out, having no effect on what
  is modelled: the web context (lines 149-174), the check of line 177, which tests an
  \<^verbatim>\<open>err\<close> that line 132 has already found nil, and \<^verbatim>\<open>startEnvironmentWatchers\<close>.\<close>

definition appMain_body :: "env \<Rightarrow> step list" where
  "appMain_body e =
     [ok (println ''Starting price DB''),
      open_or_fatal e PriceDB ''Couldn't start price database: '',
      ok (push_defer (DeferClose PriceDB ''Problem closing priceDB: '')),
      open_or_fatal e HTTPCache ''Couldn't start httpCache: '',
      ok (push_defer (DeferClose HTTPCache ''Problem closing httpCache: '')),
      ok (push_defer (DeferClose PriceDB ''Problem closing priceDB: '')),
      open_or_fatal e PriceFetcher ''Couldn't start price fetcher: '',
      ok (push_defer (DeferClose PriceFetcher ''Problem closing priceDB: '')),
      ok (println ''Starting appraisal DB''),
      open_or_fatal e AppraisalDB ''Couldn't start appraisal database: '',
      ok (push_defer (DeferClose AppraisalDB ''Problem closing appraisalDB: '')),
      configure_newrelic e,
      ok (println ''Starting type fetcher''),
      open_or_fatal e StaticFetcher ''Couldn't start static fetcher: '',
      ok (push_defer DeferCloseStaticFetcher),
      mustStartServers e,
      ok (\<lambda>s. defer_shutdowns (servers s) s),
      ok (println (''Starting Management HTTP server ('' @ management_addr e @ '')'')),
      ok (push_defer (DeferCloseServer Management)),
      ok (start_serving e Management),
      ok (wait_for_stop e)]"

text \<open>The deferred calls, run when \<^verbatim>\<open>appMain\<close> returns, the most recent first.\<close>

fun run_deferred :: "env \<Rightarrow> deferred \<Rightarrow> step" where
  "run_deferred e (DeferClose r fmt) = close_or_fatal e r fmt"
| "run_deferred e DeferCloseStaticFetcher =
     run [close_or_fatal e StaticFetcher ''Problem closing static fetcher: '',
          (\<lambda>s. case TypeDB (app s) of
                  None \<Rightarrow> Inr s
                | Some typeDB \<Rightarrow>
                    close_or_fatal e (TypeDBHandle typeDB) ''Problem closing typeDB: '' s)]"
| "run_deferred e (DeferShutdown l c) =
     run [ok (\<lambda>s. emit (ShutdownCalled l (now s)) s),
          ok (serving_ends e l),
          ok (\<lambda>s. case Shutdown c (now s) (inflight e l) of
                     (returned, timedOut) \<Rightarrow>
                       wait_until returned (emit (ShutdownReturned l returned timedOut) s))]"
| "run_deferred e (DeferCloseServer l) =
     run [ok (emit (Closed (Server l))),
          ok (serving_ends e l)]"

text \<open>The process ends when \<^verbatim>\<open>appMain\<close> has returned; the goroutines that still wait
  then never go on.\<close>

definition appMain :: "env \<Rightarrow> event list + main_state" where
  "appMain e =
     (case run (appMain_body e) initial of
        Inl fatal \<Rightarrow> Inl fatal
      | Inr s \<Rightarrow> run (map (run_deferred e) (defers s)) s)"

subsection \<open>Reading a trace\<close>

fun acquired_by :: "event \<Rightarrow> resource list" where
  "acquired_by (Opened r) = [r]"
| "acquired_by _ = []"

fun released_by :: "event \<Rightarrow> resource list" where
  "released_by (Closed r) = [r]"
| "released_by (ShutdownCalled l t) = [Server l]"
| "released_by _ = []"

definition acquired :: "event list \<Rightarrow> resource list" where
  "acquired tr = concat (map acquired_by tr)"

definition released :: "event list \<Rightarrow> resource list" where
  "released tr = concat (map released_by tr)"

fun is_shutdown :: "event \<Rightarrow> bool" where
  "is_shutdown (ShutdownCalled l t) = True"
| "is_shutdown (ShutdownReturned l t timedOut) = True"
| "is_shutdown _ = False"

fun is_typedb :: "resource \<Rightarrow> bool" where
  "is_typedb (TypeDBHandle t) = True"
| "is_typedb _ = False"

text \<open>The kinds of resource the specification orders: data stores, then fetchers, then
  listeners.\<close>

fun kind :: "resource \<Rightarrow> nat" where
  "kind PriceDB = 0"
| "kind HTTPCache = 0"
| "kind AppraisalDB = 0"
| "kind PriceFetcher = 1"
| "kind StaticFetcher = 1"
| "kind (TypeDBHandle t) = 1"
| "kind (Server l) = 2"

subsection \<open>Concrete environments\<close>

text \<open>Nothing fails, both public listeners are configured, one type database is delivered,
  and the interrupt arrives a minute after the start while a request on the HTTP listener
  needs one more second.  The serving goroutines get their turn too late to log anything
  before the process has ended.\<close>

definition env_ok :: env where
  "env_ok =
     \<lparr>open_err = (\<lambda>r. None), close_err = (\<lambda>r n. None),
      newrelic_license_key = '''', newrelic_err = None,
      https_addr = '':443'', https_domain_whitelist = [''evepraisal.com''],
      http_addr = '':80'', management_addr = '':8090'',
      serve_err = (\<lambda>l. None), scheduled_after = (\<lambda>l. 100), refreshes = [1],
      stop_at = 60000, inflight = (\<lambda>l. if l = HTTP then [61000] else [])\<rparr>"

text \<open>The same with an HTTP cache that cannot be opened.\<close>

definition env_no_cache :: env where
  "env_no_cache = env_ok\<lparr>open_err := (\<lambda>r. if r = HTTPCache then Some ''timeout'' else None)\<rparr>"

text \<open>The same with an interrupt two seconds after the start, a request on the HTTP listener
  that finishes after five seconds and one on the HTTPS listener that finishes after five
  and a half.\<close>

definition env_early_stop :: env where
  "env_early_stop =
     env_ok\<lparr>stop_at := 2000,
       inflight := (\<lambda>l. if l = HTTP then [5000] else if l = HTTPS then [5500] else [])\<rparr>"

text \<open>The same as the first with an HTTP listener that cannot bind; its goroutine goes on
  when the main goroutine has started the management listener and is about to wait for
  the interrupt.\<close>

definition env_http_in_use :: env where
  "env_http_in_use =
     env_ok\<lparr>serve_err := (\<lambda>l. if l = HTTP then Some (OtherError ''address already in use'')
                              else None),
       scheduled_after := (\<lambda>l. if l = HTTP then 4 else 100)\<rparr>"

text \<open>The same as the first with no management address configured and a management
  listener that cannot bind; its goroutine goes on while the main goroutine waits for the
  interrupt.\<close>

definition env_mgmt_unset :: env where
  "env_mgmt_unset =
     env_ok\<lparr>management_addr := [],
       serve_err := (\<lambda>l. if l = Management then Some (OtherError ''permission denied'')
                          else None),
       scheduled_after := (\<lambda>l. if l = Management then 0 else 100)\<rparr>"

subsection \<open>The stack of deferred calls\<close>

text \<open>What a deferred call releases, apart from the type database.\<close>

fun releases_of :: "deferred \<Rightarrow> resource list" where
  "releases_of (DeferClose r fmt) = [r]"
| "releases_of DeferCloseStaticFetcher = [StaticFetcher]"
| "releases_of (DeferShutdown l c) = [Server l]"
| "releases_of (DeferCloseServer l) = [Server l]"

text \<open>The deferred calls of lines 39-147, the most recent first.\<close>

definition store_defers :: "deferred list" where
  "store_defers =
     [DeferCloseStaticFetcher,
      DeferClose AppraisalDB ''Problem closing appraisalDB: '',
      DeferClose PriceFetcher ''Problem closing priceDB: '',
      DeferClose PriceDB ''Problem closing priceDB: '',
      DeferClose HTTPCache ''Problem closing httpCache: '',
      DeferClose PriceDB ''Problem closing priceDB: '']"

text \<open>The time at which the loop of lines 181-188 runs: after the second of sleep that
  follows the start of the HTTPS listener, if there is one.\<close>

definition started_at :: "env \<Rightarrow> nat" where
  "started_at e = (if https_addr e \<noteq> [] then 1000 else 0)"

definition stopCtx :: "env \<Rightarrow> ctx" where
  "stopCtx e = \<lparr>deadline = started_at e + 5000, cancelled_at = started_at e + 10000\<rparr>"

subsection \<open>Nothing released yet\<close>

text \<open>No store, fetcher or listener has been released in a trace; a step keeps it so,
  whether it goes on or ends the process.\<close>

definition unreleased :: "event list \<Rightarrow> bool" where
  "unreleased tr = (filter (\<lambda>r. \<not> is_typedb r) (released tr) = [])"

definition releases_nothing :: "step \<Rightarrow> bool" where
  "releases_nothing st =
     (\<forall>s. unreleased (trace s) \<longrightarrow>
        (case st s of Inl fatal \<Rightarrow> unreleased fatal | Inr s' \<Rightarrow> unreleased (trace s')))"
section \<open>Properties of the refresh callback\<close>

lemma parser_typedbs_parserList: "(\<Union>p \<in> set (parserList t). parser_typedbs p) = {t}"
  by (simp add: parserList_def)

lemma bound_typedbs_parserList: "bound_typedbs (ContextMultiParser t (parserList t)) = {t}"
  unfolding bound_typedbs.simps parser_typedbs_parserList by simp

lemma app_typeDBCallback:
  "app (typeDBCallback t s) =
     (app s)\<lparr>TypeDB := Some t, Parser := Some (ContextMultiParser t (parserList t))\<rparr>"
  by (simp add: typeDBCallback_def closeOldTypeDB_def assignParser_def assignTypeDB_def
      split: option.splits)

lemma trace_typeDBCallback:
  "trace (typeDBCallback t s) =
     trace s @ [SetTypeDB t, SetParser (ContextMultiParser t (parserList t))] @
     (case TypeDB (app s) of
        None \<Rightarrow> []
      | Some old \<Rightarrow>
          [Println ''closeing old typedb'', Closed (TypeDBHandle old),
           Println ''closed old typedb''])"
  by (simp add: typeDBCallback_def closeOldTypeDB_def assignParser_def assignTypeDB_def
      split: option.splits)

lemma installs_append: "installs (xs @ ys) s = installs ys (installs xs s)"
  by (induction xs arbitrary: s) simp_all


lemma visible_typedbs_typeDBCallback: "visible_typedbs (app (typeDBCallback t s)) = {t}"
  by (simp only: visible_typedbs_def app_typeDBCallback)
    (simp add: bound_typedbs_parserList del: bound_typedbs.simps)

text \<open>
  C10.  After every execution of the refresh callback the installed parser chain is the
  one built from the installed type database.  \<^verbatim>\<open>app.TypeDB\<close> is the database handed
  to the callback; \<^verbatim>\<open>app.Parser\<close> is the multi parser over that same database and the
  fifteen parsers of lines 109-123, the last two of which, the context listing parser and
  the heuristic parser, are built from that database too; no other database is reachable
  from \<^verbatim>\<open>app\<close>, neither after one callback nor after any number of them.  The
  callback does its work in this order: it assigns \<^verbatim>\<open>app.TypeDB\<close>, it assigns
  \<^verbatim>\<open>app.Parser\<close>, and only then, when there was a previous database, it logs, closes
  that database and logs again.
\<close>

theorem callback_parser_bound_to_current:
  "TypeDB (app (typeDBCallback t s)) = Some t
   \<and> Parser (app (typeDBCallback t s)) =
       Some (ContextMultiParser t
         [ParseKillmail, ParseEFT, ParseFitting, ParseLootHistory, ParsePI, ParseViewContents,
          ParseWallet, ParseSurveyScan, ParseContract, ParseAssets, ParseIndustry,
          ParseCargoScan, ParseDScan, ContextListingParser t, HeuristicParser t])
   \<and> (\<Union>p \<in> set (parserList t). parser_typedbs p) = {t}
   \<and> visible_typedbs (app (typeDBCallback t s)) = {t}
   \<and> visible_typedbs (app (installs (ts @ [t]) s)) = {t}
   \<and> trace (typeDBCallback t s) =
       trace s @
       [SetTypeDB t,
        SetParser (ContextMultiParser t
          [ParseKillmail, ParseEFT, ParseFitting, ParseLootHistory, ParsePI, ParseViewContents,
           ParseWallet, ParseSurveyScan, ParseContract, ParseAssets, ParseIndustry,
           ParseCargoScan, ParseDScan, ContextListingParser t, HeuristicParser t])] @
       (case TypeDB (app s) of
          None \<Rightarrow> []
        | Some old \<Rightarrow>
            [Println ''closeing old typedb'', Closed (TypeDBHandle old),
             Println ''closed old typedb''])"
proof -
  have chain: "parserList t =
      [ParseKillmail, ParseEFT, ParseFitting, ParseLootHistory, ParsePI, ParseViewContents,
       ParseWallet, ParseSurveyScan, ParseContract, ParseAssets, ParseIndustry,
       ParseCargoScan, ParseDScan, ContextListingParser t, HeuristicParser t]"
    by (simp add: parserList_def)
  have "TypeDB (app (typeDBCallback t s)) = Some t"
    by (simp add: app_typeDBCallback)
  moreover have "Parser (app (typeDBCallback t s)) = Some (ContextMultiParser t (parserList t))"
    by (simp add: app_typeDBCallback)
  moreover have "visible_typedbs (app (installs (ts @ [t]) s)) = {t}"
    by (simp add: installs_append visible_typedbs_typeDBCallback)
  ultimately show ?thesis
    using parser_typedbs_parserList [of t] visible_typedbs_typeDBCallback [of t s]
      trace_typeDBCallback [of t s]
    by (simp only: chain)
qed

section \<open>What a reader sees during an install\<close>



section \<open>A failed build\<close>

text \<open>
  C8.  When the build of the new snapshot fails, the refresh cycle does not call the
  callback: the application state (current type database and parser chain) is the one
  from before the attempt, the only event is the report of the failure, nothing is
  closed and the process is not terminated.
\<close>

theorem failed_build_keeps_current:
  "app (refresh (Inl failure) s) = app s
   \<and> trace (refresh (Inl failure) s) = trace s @ [Println failure]
   \<and> typedb_closed (refresh (Inl failure) s) h = typedb_closed s h
   \<and> (Fatalf msg \<in> set (trace (refresh (Inl failure) s))) = (Fatalf msg \<in> set (trace s))"
  by (simp add: refresh_def typedb_closed_def)

section \<open>The dispatcher\<close>

lemma dispatch_append_declined:
  "list_all (\<lambda>p. \<not> recognizes attempt rawText snapshot p) pre \<Longrightarrow>
   dispatch attempt (pre @ ps) rawText snapshot = dispatch attempt ps rawText snapshot"
  by (induction pre) (auto simp: recognizes_def split: sum.splits)


text \<open>
  C4.  The dispatcher walks the registered recognizers in registration order and returns
  the result of the first that reports recognized, tagged with its identity: if every
  recognizer registered before \<open>p\<close> declines (or fails internally) and \<open>p\<close> recognizes
  with \<open>items\<close>, the result is \<open>Recognized items p\<close>, whatever the recognizers
  registered after \<open>p\<close> would answer.
\<close>

theorem dispatch_first_match:
  assumes "list_all (\<lambda>q. \<not> recognizes attempt rawText snapshot q) pre"
    and "attempt p rawText snapshot = Inr (items, True)"
  shows "dispatch attempt (pre @ p # post) rawText snapshot = Recognized items p"
  using assms by (simp add: dispatch_append_declined)

theorem dispatch_first_match_witness:
  "list_all (\<lambda>q. \<not> recognizes two_match '''' 7 q) [ParseKillmail, ParseEFT]
   \<and> two_match ParseFitting '''' 7 = Inr ([''fitting''], True)
   \<and> two_match (HeuristicParser 7) '''' 7 = Inr ([''heuristic''], True)
   \<and> dispatch two_match (parserList 7) '''' 7 = Recognized [''fitting''] ParseFitting"
proof -
  have a: "list_all (\<lambda>q. \<not> recognizes two_match '''' 7 q) [ParseKillmail, ParseEFT]"
    by (simp add: recognizes_def two_match_def)
  have b: "two_match ParseFitting '''' 7 = Inr ([''fitting''], True)"
    by (simp add: two_match_def)
  have c: "two_match (HeuristicParser 7) '''' 7 = Inr ([''heuristic''], True)"
    by (simp add: two_match_def)
  have d: "parserList 7 = [ParseKillmail, ParseEFT] @ ParseFitting #
      [ParseLootHistory, ParsePI, ParseViewContents, ParseWallet, ParseSurveyScan,
       ParseContract, ParseAssets, ParseIndustry, ParseCargoScan, ParseDScan,
       ContextListingParser 7, HeuristicParser 7]"
    by (simp add: parserList_def)
  show ?thesis
    using a b c dispatch_first_match [OF a b] by (simp only: d)
qed




section \<open>The life cycle\<close>

subsection \<open>What the state transformers change\<close>

lemma emit_fields:
  "trace (emit ev s) = trace s @ [ev]" "app (emit ev s) = app s" "now (emit ev s) = now s"
  "defers (emit ev s) = defers s" "servers (emit ev s) = servers s"
  "goroutines (emit ev s) = goroutines s"
  by (simp_all add: emit_def)

lemma push_defer_fields:
  "trace (push_defer d s) = trace s" "app (push_defer d s) = app s"
  "now (push_defer d s) = now s" "defers (push_defer d s) = d # defers s"
  "servers (push_defer d s) = servers s" "goroutines (push_defer d s) = goroutines s"
  by (simp_all add: push_defer_def)

lemma sleep_fields:
  "trace (sleep ms s) = trace s" "app (sleep ms s) = app s" "now (sleep ms s) = now s + ms"
  "defers (sleep ms s) = defers s" "servers (sleep ms s) = servers s"
  "goroutines (sleep ms s) = goroutines s"
  by (simp_all add: sleep_def)

lemma wait_until_fields:
  "trace (wait_until t s) = trace s" "app (wait_until t s) = app s"
  "now (wait_until t s) = max (now s) t" "defers (wait_until t s) = defers s"
  "servers (wait_until t s) = servers s" "goroutines (wait_until t s) = goroutines s"
  by (simp_all add: wait_until_def)

lemma append_server_fields:
  "trace (append_server l s) = trace s" "app (append_server l s) = app s"
  "now (append_server l s) = now s" "defers (append_server l s) = defers s"
  "servers (append_server l s) = servers s @ [l]"
  "goroutines (append_server l s) = goroutines s"
  by (simp_all add: append_server_def)

lemma typeDBCallback_fields:
  "now (typeDBCallback t s) = now s" "defers (typeDBCallback t s) = defers s"
  "servers (typeDBCallback t s) = servers s" "goroutines (typeDBCallback t s) = goroutines s"
  by (simp_all add: typeDBCallback_def closeOldTypeDB_def assignParser_def assignTypeDB_def
      split: option.splits)

lemma installs_fields:
  "now (installs ts s) = now s" "defers (installs ts s) = defers s"
  "servers (installs ts s) = servers s" "goroutines (installs ts s) = goroutines s"
  by (induction ts arbitrary: s) (simp_all add: typeDBCallback_fields)

lemma defer_shutdowns_fields:
  "trace (defer_shutdowns ls s) = trace s" "app (defer_shutdowns ls s) = app s"
  "now (defer_shutdowns ls s) = now s" "servers (defer_shutdowns ls s) = servers s"
  "goroutines (defer_shutdowns ls s) = goroutines s"
  "defers (defer_shutdowns ls s) =
     rev (map (\<lambda>l. DeferShutdown l \<lparr>deadline = now s + 5000, cancelled_at = now s + 10000\<rparr>) ls)
     @ defers s"
  by (induction ls arbitrary: s) (simp_all add: push_defer_fields)

lemma start_serving_fields:
  "trace (start_serving e l s) = trace s @ [Opened (Server l)]"
  "app (start_serving e l s) = app s" "now (start_serving e l s) = now s"
  "defers (start_serving e l s) = defers s" "servers (start_serving e l s) = servers s"
  "goroutines (start_serving e l s) =
     goroutines s @
     (case serve_err e l of None \<Rightarrow> [] | Some err \<Rightarrow> [(l, err, scheduled_after e l)])"
  by (simp_all add: start_serving_def emit_def split: option.splits)

lemma serving_ends_fields:
  "trace (serving_ends e l s) = trace s"
  "app (serving_ends e l s) = app s" "now (serving_ends e l s) = now s"
  "defers (serving_ends e l s) = defers s" "servers (serving_ends e l s) = servers s"
  "goroutines (serving_ends e l s) =
     goroutines s @
     (case serve_err e l of
        None \<Rightarrow> [(l, ErrServerClosed, scheduled_after e l)]
      | Some err \<Rightarrow> [])"
  by (simp_all add: serving_ends_def split: option.splits)

lemma initial_fields:
  "trace initial = []" "now initial = 0" "defers initial = []" "servers initial = []"
  "TypeDB (app initial) = None" "Parser (app initial) = None" "goroutines initial = []"
  by (simp_all add: initial_def)

lemmas state_fields = emit_fields push_defer_fields sleep_fields wait_until_fields
  append_server_fields installs_fields defer_shutdowns_fields start_serving_fields
  serving_ends_fields initial_fields

subsection \<open>What the refresh callback leaves in the trace\<close>

lemma acquired_append: "acquired (xs @ ys) = acquired xs @ acquired ys"
  by (simp add: acquired_def)

lemma released_append: "released (xs @ ys) = released xs @ released ys"
  by (simp add: released_def)

lemma acquired_single: "acquired [ev] = acquired_by ev"
  by (simp add: acquired_def)

lemma released_single: "released [ev] = released_by ev"
  by (simp add: released_def)

lemma typeDBCallback_trace_reading:
  "acquired (trace (typeDBCallback t s)) = acquired (trace s)"
  "filter (\<lambda>r. \<not> is_typedb r) (released (trace (typeDBCallback t s))) =
     filter (\<lambda>r. \<not> is_typedb r) (released (trace s))"
  "filter is_shutdown (trace (typeDBCallback t s)) = filter is_shutdown (trace s)"
  by (cases "TypeDB (app s)"; simp add: trace_typeDBCallback acquired_def released_def)+

lemma installs_trace_reading:
  "acquired (trace (installs ts s)) = acquired (trace s)"
  "filter (\<lambda>r. \<not> is_typedb r) (released (trace (installs ts s))) =
     filter (\<lambda>r. \<not> is_typedb r) (released (trace s))"
  "filter is_shutdown (trace (installs ts s)) = filter is_shutdown (trace s)"
  by (induction ts arbitrary: s) (simp_all add: typeDBCallback_trace_reading)

subsection \<open>The turns of the scheduler\<close>

lemma failed_append_goroutines:
  "failed (s\<lparr>goroutines := goroutines s @ gs\<rparr>) =
     failed s @ map fst (filter (\<lambda>(l, err, n). err \<noteq> ErrServerClosed) gs)"
  by (simp add: failed_def)

lemma serve_goroutine_Inr:
  "(serve_goroutine l (Some err) s = Inr s') =
   (err = ErrServerClosed \<and> s' = println (listener_name l @ '' server stopped'') s)"
  by (auto simp: serve_goroutine_def fatalf_def)

lemma println_fields:
  "trace (println msg s) = trace s @ [Println msg]" "app (println msg s) = app s"
  "now (println msg s) = now s" "defers (println msg s) = defers s"
  "servers (println msg s) = servers s" "goroutines (println msg s) = goroutines s"
  by (simp_all add: println_def emit_fields)

text \<open>A turn of the scheduler that does not end the process leaves nothing behind but log
  lines, and every goroutine that holds an error of its listener is still waiting.\<close>

lemma run_goroutines_reading:
  "run_goroutines gs s = Inr s' \<Longrightarrow>
   acquired (trace s') = acquired (trace s)
   \<and> released (trace s') = released (trace s)
   \<and> filter is_shutdown (trace s') = filter is_shutdown (trace s)
   \<and> now s' = now s \<and> defers s' = defers s \<and> servers s' = servers s \<and> app s' = app s
   \<and> failed s' = failed s @ map fst (filter (\<lambda>(l, err, n). err \<noteq> ErrServerClosed) gs)"
proof (induction gs arbitrary: s)
  case Nil
  then show ?case by simp
next
  case (Cons g gs)
  obtain l err n where g: "g = (l, err, n)" by (cases g)
  show ?case
  proof (cases "n = 0")
    case True
    with Cons.prems g obtain s1 where 1: "serve_goroutine l (Some err) s = Inr s1"
      and 2: "run_goroutines gs s1 = Inr s'"
      by (auto split: sum.splits)
    from 1 have err: "err = ErrServerClosed"
      and s1: "s1 = println (listener_name l @ '' server stopped'') s"
      unfolding serve_goroutine_Inr by simp_all
    have "failed s1 = failed s"
      by (simp add: s1 failed_def println_fields)
    with Cons.IH [OF 2] show ?thesis
      by (simp add: g err s1 println_fields acquired_append released_append acquired_single
          released_single)
  next
    case False
    with Cons.prems g have 2:
      "run_goroutines gs (s\<lparr>goroutines := goroutines s @ [(l, err, n - 1)]\<rparr>) = Inr s'"
      by simp
    show ?thesis
      using Cons.IH [OF 2] by (simp add: g failed_append_goroutines)
  qed
qed

lemma tick_reading:
  "tick s = Inr s' \<Longrightarrow>
   acquired (trace s') = acquired (trace s)
   \<and> released (trace s') = released (trace s)
   \<and> filter is_shutdown (trace s') = filter is_shutdown (trace s)
   \<and> now s' = now s \<and> defers s' = defers s \<and> servers s' = servers s \<and> app s' = app s
   \<and> failed s' = failed s"
  unfolding tick_def
  by (drule run_goroutines_reading) (simp add: failed_def)

text \<open>A goroutine that holds an error of its listener ends the process at its turn.\<close>

lemma run_goroutines_fatal:
  "(l, err, 0) \<in> set gs \<Longrightarrow> err \<noteq> ErrServerClosed \<Longrightarrow> \<exists>fatal. run_goroutines gs s = Inl fatal"
proof (induction gs arbitrary: s)
  case Nil
  then show ?case by simp
next
  case (Cons g gs)
  obtain l' err' n' where g: "g = (l', err', n')" by (cases g)
  show ?case
  proof (cases "g = (l, err, 0)")
    case True
    with Cons.prems show ?thesis
      by (simp add: serve_goroutine_def fatalf_def)
  next
    case False
    with Cons.prems have "(l, err, 0) \<in> set gs" by simp
    from Cons.IH [OF this Cons.prems(2)] show ?thesis
      by (auto simp: g split: sum.splits)
  qed
qed

text \<open>Whatever a turn of the scheduler does, it releases nothing.\<close>

lemma run_goroutines_released:
  "released (case run_goroutines gs s of Inl fatal \<Rightarrow> fatal | Inr s' \<Rightarrow> trace s') =
     released (trace s)"
proof (induction gs arbitrary: s)
  case Nil
  then show ?case by simp
next
  case (Cons g gs)
  obtain l err n where g: "g = (l, err, n)" by (cases g)
  show ?case
  proof (cases "n = 0")
    case True
    show ?thesis
    proof (cases "err = ErrServerClosed")
      case True
      with \<open>n = 0\<close> Cons.IH [of "println (listener_name l @ '' server stopped'') s"]
      show ?thesis
        by (simp add: g serve_goroutine_def println_fields released_append released_single)
    next
      case False
      with \<open>n = 0\<close> show ?thesis
        by (simp add: g serve_goroutine_def fatalf_def released_append released_single)
    qed
  next
    case False
    with Cons.IH [of "s\<lparr>goroutines := goroutines s @ [(l, err, n - 1)]\<rparr>"] show ?thesis
      by (simp add: g)
  qed
qed

subsection \<open>The state when the interrupt has arrived\<close>

lemma run_Cons_Inr:
  "(run (st # steps) s = Inr s') =
   (\<exists>s1 s2. tick s = Inr s1 \<and> st s1 = Inr s2 \<and> run steps s2 = Inr s')"
  by (simp split: sum.splits)

lemma ok_Inr: "(ok f s = Inr s') = (s' = f s)"
  by (auto simp: ok_def)

lemma open_or_fatal_Inr:
  "(open_or_fatal e r fmt s = Inr s') = (open_err e r = None \<and> s' = emit (Opened r) s)"
  by (auto simp: open_or_fatal_def fatalf_def split: option.splits)

lemma close_or_fatal_Inr:
  "(close_or_fatal e r fmt s = Inr s') =
   (close_err e r (count_list (trace s) (Closed r)) = None \<and> s' = emit (Closed r) s)"
  by (auto simp: close_or_fatal_def fatalf_def split: option.splits)

lemma configure_newrelic_Inr:
  "(configure_newrelic e s = Inr s') =
   (s' = s \<and> (newrelic_license_key e = [] \<or> newrelic_err e = None))"
  by (auto simp: configure_newrelic_def fatalf_def split: option.splits)

lemma failed_fields:
  "failed (emit ev s) = failed s" "failed (println msg s) = failed s"
  "failed (push_defer d s) = failed s" "failed (sleep ms s) = failed s"
  "failed (wait_until t s) = failed s" "failed (append_server l s) = failed s"
  "failed (installs ts s) = failed s" "failed (defer_shutdowns ls s) = failed s"
  "failed (s\<lparr>servers := ls\<rparr>) = failed s"
  "failed (start_serving e l s) = failed s @ (if cannot_serve e l then [l] else [])"
  "failed (serving_ends e l s) = failed s"
  "failed initial = []"
  by (simp_all add: failed_def state_fields println_fields cannot_serve_def
      split: option.splits)

text \<open>The reading of a state that the life cycle is about: what was acquired, what was
  released (the type databases apart), the shutdown events, the clock, the deferred
  calls, the servers, and the listeners that cannot serve and whose goroutine has not
  had its turn.\<close>

lemma wait_for_stop_reading:
  "acquired (trace (wait_for_stop e s)) = acquired (trace s)"
  "filter (\<lambda>r. \<not> is_typedb r) (released (trace (wait_for_stop e s))) =
     filter (\<lambda>r. \<not> is_typedb r) (released (trace s))"
  "filter is_shutdown (trace (wait_for_stop e s)) = filter is_shutdown (trace s)"
  "now (wait_for_stop e s) = max (now s) (stop_at e)"
  "defers (wait_for_stop e s) = defers s"
  "servers (wait_for_stop e s) = servers s"
  "failed (wait_for_stop e s) = failed s"
  by (simp_all add: wait_for_stop_def println_fields state_fields installs_trace_reading
      acquired_append released_append failed_fields)
    (simp_all add: acquired_def released_def)

lemma mustStartServers_reading:
  "mustStartServers e s = Inr s' \<Longrightarrow>
   servers s' =
      (if https_addr e \<noteq> [] then [HTTPS] else []) @ (if http_addr e \<noteq> [] then [HTTP] else [])
    \<and> acquired (trace s') = acquired (trace s) @ map Server (servers s')
    \<and> released (trace s') = released (trace s)
    \<and> filter is_shutdown (trace s') = filter is_shutdown (trace s)
    \<and> now s' = now s + started_at e
    \<and> defers s' = defers s
    \<and> failed s' = failed s @ filter (cannot_serve e) (servers s')"
proof -
  assume run: "mustStartServers e s = Inr s'"
  have clear: "servers (s\<lparr>servers := []\<rparr>) = []" "trace (s\<lparr>servers := []\<rparr>) = trace s"
    "now (s\<lparr>servers := []\<rparr>) = now s" "defers (s\<lparr>servers := []\<rparr>) = defers s"
    for s :: main_state
    by simp_all
  show ?thesis
  proof (cases "https_addr e = []"; cases "http_addr e = []")
    assume c: "https_addr e = []" "http_addr e = []"
    from run show ?thesis
      unfolding mustStartServers_def
      by (simp only: c if_False if_True not_True_eq_False not_False_eq_True simp_thms
          append.simps run_Cons_Inr run.simps(1) ok_Inr)
        (auto simp: clear started_at_def c failed_fields dest!: tick_reading)
  next
    assume c: "https_addr e = []" "http_addr e \<noteq> []"
    from run show ?thesis
      unfolding mustStartServers_def
      by (simp only: c if_False if_True not_True_eq_False not_False_eq_True simp_thms
          append.simps run_Cons_Inr run.simps(1) ok_Inr)
        (auto simp: clear started_at_def c state_fields println_fields failed_fields
          acquired_append released_append acquired_single released_single
          dest!: tick_reading)
  next
    assume c: "https_addr e \<noteq> []" "http_addr e = []"
    from run show ?thesis
      unfolding mustStartServers_def
      by (simp only: c if_False if_True not_True_eq_False not_False_eq_True simp_thms
          append.simps run_Cons_Inr run.simps(1) ok_Inr)
        (auto simp: clear started_at_def c state_fields println_fields failed_fields
          acquired_append released_append acquired_single released_single
          dest!: tick_reading)
  next
    assume c: "https_addr e \<noteq> []" "http_addr e \<noteq> []"
    from run show ?thesis
      unfolding mustStartServers_def
      by (simp only: c if_False if_True not_True_eq_False not_False_eq_True simp_thms
          append.simps run_Cons_Inr run.simps(1) ok_Inr)
        (auto simp: clear started_at_def c state_fields println_fields failed_fields
          acquired_append released_append acquired_single released_single
          dest!: tick_reading)
  qed
qed

lemma acquired_Nil: "acquired [] = []" "released [] = []"
  by (simp_all add: acquired_def released_def)

lemma appMain_body_Inr:
  assumes "run (appMain_body e) initial = Inr s"
  shows "servers s =
      (if https_addr e \<noteq> [] then [HTTPS] else []) @ (if http_addr e \<noteq> [] then [HTTP] else [])
    \<and> now s = max (started_at e) (stop_at e)
    \<and> acquired (trace s) =
        [PriceDB, HTTPCache, PriceFetcher, AppraisalDB, StaticFetcher] @ map Server (servers s) @
        [Server Management]
    \<and> filter (\<lambda>r. \<not> is_typedb r) (released (trace s)) = []
    \<and> filter is_shutdown (trace s) = []
    \<and> defers s =
        DeferCloseServer Management # rev (map (\<lambda>l. DeferShutdown l (stopCtx e)) (servers s)) @
        store_defers
    \<and> failed s = filter (cannot_serve e) (servers s @ [Management])"
  using assms
  unfolding appMain_body_def run_Cons_Inr run.simps(1) ok_Inr open_or_fatal_Inr
    configure_newrelic_Inr
  apply (elim exE conjE)
  apply (drule tick_reading)+
  apply (drule mustStartServers_reading)
  apply (clarsimp simp: state_fields println_fields failed_fields wait_for_stop_reading
      acquired_append released_append acquired_single released_single acquired_Nil
      stopCtx_def store_defers_def)
  done

subsection \<open>Running the deferred calls\<close>

lemma Shutdown_not_before: "t \<le> fst (Shutdown c t finishing)"
proof -
  have "t \<le> fold max xs t" for xs :: "nat list"
    by (induction xs arbitrary: t) (auto intro: order_trans [OF max.cobounded2])
  then show ?thesis
    by (auto simp: Shutdown_def Let_def)
qed

lemma run_deferred_reading:
  "run_deferred e d s = Inr s' \<Longrightarrow>
   filter (\<lambda>r. \<not> is_typedb r) (released (trace s')) =
     filter (\<lambda>r. \<not> is_typedb r) (released (trace s)) @
     filter (\<lambda>r. \<not> is_typedb r) (releases_of d)
   \<and> acquired (trace s') = acquired (trace s) \<and> servers s' = servers s
   \<and> failed s' = failed s"
proof (cases d)
  case (DeferClose r fmt)
  then show "run_deferred e d s = Inr s' \<Longrightarrow> ?thesis"
    by (cases r)
      (auto simp: close_or_fatal_Inr state_fields failed_fields acquired_def released_def)
next
  case DeferCloseStaticFetcher
  then show "run_deferred e d s = Inr s' \<Longrightarrow> ?thesis"
    unfolding DeferCloseStaticFetcher run_deferred.simps run_Cons_Inr run.simps(1)
      close_or_fatal_Inr
    by (auto simp: close_or_fatal_Inr state_fields failed_fields acquired_append
        released_append acquired_single released_single
        split: option.splits dest!: tick_reading)
next
  case (DeferShutdown l c)
  then show "run_deferred e d s = Inr s' \<Longrightarrow> ?thesis"
    unfolding DeferShutdown run_deferred.simps run_Cons_Inr run.simps(1) ok_Inr
    by (auto simp: state_fields failed_fields acquired_append released_append
        acquired_single released_single case_prod_beta dest!: tick_reading)
next
  case (DeferCloseServer l)
  then show "run_deferred e d s = Inr s' \<Longrightarrow> ?thesis"
    unfolding DeferCloseServer run_deferred.simps run_Cons_Inr run.simps(1) ok_Inr
    by (auto simp: state_fields failed_fields acquired_append released_append
        acquired_single released_single dest!: tick_reading)
qed

lemma run_defers_reading:
  "run (map (run_deferred e) ds) s = Inr s' \<Longrightarrow>
   filter (\<lambda>r. \<not> is_typedb r) (released (trace s')) =
     filter (\<lambda>r. \<not> is_typedb r) (released (trace s)) @
     filter (\<lambda>r. \<not> is_typedb r) (concat (map releases_of ds))
   \<and> acquired (trace s') = acquired (trace s) \<and> servers s' = servers s
   \<and> failed s' = failed s"
proof (induction ds arbitrary: s)
  case Nil
  then show ?case by simp
next
  case (Cons d ds)
  from Cons.prems have "run (run_deferred e d # map (run_deferred e) ds) s = Inr s'"
    by simp
  then obtain s0 s1 where 0: "tick s = Inr s0" and 1: "run_deferred e d s0 = Inr s1"
    and 2: "run (map (run_deferred e) ds) s1 = Inr s'"
    unfolding run_Cons_Inr by blast
  show ?case
    using Cons.IH [OF 2] run_deferred_reading [OF 1] tick_reading [OF 0] by simp
qed

subsection \<open>The concrete environments, evaluated\<close>

lemma env_ok_fields:
  "open_err env_ok r = None" "close_err env_ok r n = None"
  "newrelic_license_key env_ok = []" "https_addr env_ok = '':443''"
  "https_domain_whitelist env_ok = [''evepraisal.com'']"
  "http_addr env_ok = '':80''"
  "management_addr env_ok = '':8090''" "serve_err env_ok l = None"
  "scheduled_after env_ok l = 100" "refreshes env_ok = [1]"
  "stop_at env_ok = 60000" "inflight env_ok l = (if l = HTTP then [61000] else [])"
  by (simp_all add: env_ok_def)

lemma env_no_cache_fields:
  "open_err env_no_cache r = (if r = HTTPCache then Some ''timeout'' else None)"
  "newrelic_license_key env_no_cache = []"
  by (simp_all add: env_no_cache_def env_ok_def)

lemma env_early_stop_fields:
  "open_err env_early_stop r = None" "close_err env_early_stop r n = None"
  "newrelic_license_key env_early_stop = []" "https_addr env_early_stop = '':443''"
  "https_domain_whitelist env_early_stop = [''evepraisal.com'']"
  "http_addr env_early_stop = '':80''" "management_addr env_early_stop = '':8090''"
  "serve_err env_early_stop l = None" "scheduled_after env_early_stop l = 100"
  "refreshes env_early_stop = [1]"
  "stop_at env_early_stop = 2000"
  "inflight env_early_stop l = (if l = HTTP then [5000] else if l = HTTPS then [5500] else [])"
  by (simp_all add: env_early_stop_def env_ok_def)

lemma env_http_in_use_fields:
  "open_err env_http_in_use r = None" "newrelic_license_key env_http_in_use = []"
  "https_addr env_http_in_use = '':443''"
  "https_domain_whitelist env_http_in_use = [''evepraisal.com'']"
  "http_addr env_http_in_use = '':80''" "management_addr env_http_in_use = '':8090''"
  "serve_err env_http_in_use l =
     (if l = HTTP then Some (OtherError ''address already in use'') else None)"
  "scheduled_after env_http_in_use l = (if l = HTTP then 4 else 100)"
  by (simp_all add: env_http_in_use_def env_ok_def)

lemma env_mgmt_unset_fields:
  "open_err env_mgmt_unset r = None" "newrelic_license_key env_mgmt_unset = []"
  "https_addr env_mgmt_unset = '':443''"
  "https_domain_whitelist env_mgmt_unset = [''evepraisal.com'']"
  "http_addr env_mgmt_unset = '':80''"
  "management_addr env_mgmt_unset = []"
  "serve_err env_mgmt_unset l =
     (if l = Management then Some (OtherError ''permission denied'') else None)"
  "scheduled_after env_mgmt_unset l = (if l = Management then 0 else 100)"
  by (simp_all add: env_mgmt_unset_def env_ok_def)

lemmas eval_steps = format_strings_def ok_def open_or_fatal_def close_or_fatal_def
  configure_newrelic_def mustStartServers_def tick_def serve_goroutine_def fatalf_def
  wait_for_stop_def println_fields
  app_typeDBCallback trace_typeDBCallback typeDBCallback_fields state_fields
  appMain_def appMain_body_def Shutdown_def done_at_def

lemma appMain_env_ok:
  "\<exists>s. appMain env_ok = Inr s \<and> servers s = [HTTPS, HTTP] \<and>
     trace s =
       [Println ''Starting price DB'', Opened PriceDB, Opened HTTPCache, Opened PriceFetcher,
        Println ''Starting appraisal DB'', Opened AppraisalDB, Println ''Starting type fetcher'',
        Opened StaticFetcher,
        Println ''Starting HTTPS server (:443) ([evepraisal.com])'',
        Opened (Server HTTPS),
        Println ''Starting HTTP server (:80)'', Opened (Server HTTP),
        Println ''Starting Management HTTP server (:8090)'', Opened (Server Management),
        SetTypeDB 1, SetParser (ContextMultiParser 1 (parserList 1)),
        Println ''Shutting down'', Closed (Server Management),
        ShutdownCalled HTTP 60000, ShutdownReturned HTTP 60000 True,
        ShutdownCalled HTTPS 60000, ShutdownReturned HTTPS 60000 False,
        Closed StaticFetcher, Closed (TypeDBHandle 1),
        Closed AppraisalDB, Closed PriceFetcher, Closed PriceDB, Closed HTTPCache,
        Closed PriceDB]"
  by (simp add: eval_steps env_ok_fields)

lemma appMain_env_no_cache:
  "appMain env_no_cache =
     Inl [Println ''Starting price DB'', Opened PriceDB,
          Fatalf ''Couldn't start httpCache: timeout'']"
  "run (appMain_body env_no_cache) initial =
     Inl [Println ''Starting price DB'', Opened PriceDB,
          Fatalf ''Couldn't start httpCache: timeout'']"
  by (simp_all add: eval_steps env_no_cache_fields)

lemma appMain_env_early_stop:
  "\<exists>s. appMain env_early_stop = Inr s \<and>
     filter is_shutdown (trace s) =
       [ShutdownCalled HTTP 2000, ShutdownReturned HTTP 5000 False,
        ShutdownCalled HTTPS 5000, ShutdownReturned HTTPS 5500 False]"
  by (simp add: eval_steps env_early_stop_fields)

lemma appMain_env_http_in_use:
  "appMain env_http_in_use =
     Inl [Println ''Starting price DB'', Opened PriceDB, Opened HTTPCache, Opened PriceFetcher,
          Println ''Starting appraisal DB'', Opened AppraisalDB,
          Println ''Starting type fetcher'', Opened StaticFetcher,
          Println ''Starting HTTPS server (:443) ([evepraisal.com])'',
          Opened (Server HTTPS),
          Println ''Starting HTTP server (:80)'', Opened (Server HTTP),
          Println ''Starting Management HTTP server (:8090)'', Opened (Server Management),
          Fatalf ''HTTP server failure: address already in use'']"
  by (simp add: eval_steps env_http_in_use_fields)

lemma appMain_env_mgmt_unset:
  "appMain env_mgmt_unset =
     Inl [Println ''Starting price DB'', Opened PriceDB, Opened HTTPCache, Opened PriceFetcher,
          Println ''Starting appraisal DB'', Opened AppraisalDB,
          Println ''Starting type fetcher'', Opened StaticFetcher,
          Println ''Starting HTTPS server (:443) ([evepraisal.com])'',
          Opened (Server HTTPS),
          Println ''Starting HTTP server (:80)'', Opened (Server HTTP),
          Println ''Starting Management HTTP server ()'', Opened (Server Management),
          Fatalf ''Management HTTP server failure: permission denied'']"
  by (simp add: eval_steps env_mgmt_unset_fields)


subsection \<open>Order of acquisition and release\<close>

lemma releases_of_shutdowns:
  "concat (map releases_of (rev (map (\<lambda>l. DeferShutdown l c) ls))) = rev (map Server ls)"
  by (induction ls) simp_all

lemma releases_nothing_tick: "releases_nothing tick"
proof -
  have "case tick s of Inl fatal \<Rightarrow> unreleased fatal | Inr s' \<Rightarrow> unreleased (trace s')"
    if "unreleased (trace s)" for s
    using run_goroutines_released [of "goroutines s" "s\<lparr>goroutines := []\<rparr>"] that
    by (cases "run_goroutines (goroutines s) (s\<lparr>goroutines := []\<rparr>)")
      (simp_all add: tick_def unreleased_def)
  then show ?thesis
    by (simp add: releases_nothing_def)
qed

lemma run_releases_nothing:
  "list_all releases_nothing steps \<Longrightarrow> unreleased (trace s) \<Longrightarrow>
   (case run steps s of Inl fatal \<Rightarrow> unreleased fatal | Inr s' \<Rightarrow> unreleased (trace s'))"
proof (induction steps arbitrary: s)
  case Nil
  then show ?case by simp
next
  case (Cons st steps)
  from Cons.prems(2) have t: "case tick s of Inl fatal \<Rightarrow> unreleased fatal
      | Inr s' \<Rightarrow> unreleased (trace s')"
    using releases_nothing_tick by (simp add: releases_nothing_def)
  show ?case
  proof (cases "tick s")
    case (Inl fatal)
    with t show ?thesis by simp
  next
    case tick: (Inr s0)
    with t have s0: "unreleased (trace s0)" by simp
    with Cons.prems(1) have st: "case st s0 of Inl fatal \<Rightarrow> unreleased fatal
        | Inr s' \<Rightarrow> unreleased (trace s')"
      by (simp add: releases_nothing_def)
    show ?thesis
    proof (cases "st s0")
      case (Inl fatal)
      with st tick show ?thesis by simp
    next
      case (Inr s1)
      with st have "unreleased (trace s1)" by simp
      with Cons have "case run steps s1 of Inl fatal \<Rightarrow> unreleased fatal
          | Inr s' \<Rightarrow> unreleased (trace s')"
        by simp
      with Inr tick show ?thesis by simp
    qed
  qed
qed

lemma releases_nothing_run: "list_all releases_nothing steps \<Longrightarrow> releases_nothing (run steps)"
  unfolding releases_nothing_def [of "run steps"] using run_releases_nothing by blast

lemma releases_nothing_ok:
  "releases_nothing (ok (println msg))" "releases_nothing (ok (push_defer d))"
  "releases_nothing (ok (append_server l))" "releases_nothing (ok (sleep ms))"
  "releases_nothing (ok (\<lambda>s. s\<lparr>servers := []\<rparr>))"
  "releases_nothing (ok (\<lambda>s. defer_shutdowns (servers s) s))"
  "releases_nothing (ok (start_serving e l))"
  "releases_nothing (ok (wait_for_stop e))"
  by (simp_all add: releases_nothing_def ok_def println_fields state_fields unreleased_def
      wait_for_stop_reading released_append released_single)

lemma releases_nothing_open: "releases_nothing (open_or_fatal e r fmt)"
  by (simp add: releases_nothing_def open_or_fatal_def fatalf_def state_fields unreleased_def released_def
      split: option.splits)

lemma releases_nothing_newrelic: "releases_nothing (configure_newrelic e)"
  by (simp add: releases_nothing_def configure_newrelic_def fatalf_def unreleased_def released_def
      split: option.splits)

lemma releases_nothing_mustStartServers: "releases_nothing (mustStartServers e)"
  unfolding mustStartServers_def
  by (rule releases_nothing_run) (simp add: releases_nothing_ok)

lemma releases_nothing_appMain_body: "list_all releases_nothing (appMain_body e)"
  unfolding appMain_body_def
  by (simp add: releases_nothing_ok releases_nothing_open releases_nothing_newrelic
      releases_nothing_mustStartServers)

lemma appMain_Inr:
  assumes "appMain e = Inr s"
  obtains s0 where "run (appMain_body e) initial = Inr s0"
    and "run (map (run_deferred e) (defers s0)) s0 = Inr s"
  using assms by (auto simp: appMain_def split: sum.splits)

text \<open>
  C7, as the code has it.  The resources are acquired in one fixed order: price database,
  HTTP cache, price fetcher, appraisal database, static fetcher, then the public listeners
  that are configured and the management listener.  When \<^verbatim>\<open>appMain\<close> returns normally,
  the resources other than the price database are released once each, in exactly the
  reverse of that order (the type database is closed by the static fetcher's deferred
  function and by the refresh callback, and is not counted here).  When the process is
  ended by \<^verbatim>\<open>log.Fatalf\<close> during start-up, no deferred call runs and nothing is
  released.
\<close>

theorem release_in_reverse_order:
  "(\<forall>s. appMain e = Inr s \<longrightarrow>
      servers s =
        (if https_addr e \<noteq> [] then [HTTPS] else []) @ (if http_addr e \<noteq> [] then [HTTP] else [])
      \<and> acquired (trace s) =
        [PriceDB, HTTPCache, PriceFetcher, AppraisalDB, StaticFetcher] @ map Server (servers s) @
        [Server Management]
      \<and> filter (\<lambda>r. r \<noteq> PriceDB) (filter (\<lambda>r. \<not> is_typedb r) (released (trace s))) =
        rev (filter (\<lambda>r. r \<noteq> PriceDB) (acquired (trace s))))
   \<and> (\<forall>fatal. run (appMain_body e) initial = Inl fatal \<longrightarrow> unreleased fatal)"
proof (intro conjI allI impI)
  fix fatal
  assume "run (appMain_body e) initial = Inl fatal"
  moreover have "unreleased (trace initial)"
    by (simp add: unreleased_def released_def initial_fields)
  ultimately show "unreleased fatal"
    using run_releases_nothing [OF releases_nothing_appMain_body, of initial e] by simp
next
  fix s
  assume "appMain e = Inr s"
  then obtain s0 where body: "run (appMain_body e) initial = Inr s0"
    and deferred: "run (map (run_deferred e) (defers s0)) s0 = Inr s"
    by (rule appMain_Inr)
  note b = appMain_body_Inr [OF body]
  note d = run_defers_reading [OF deferred]
  have servers: "servers s = servers s0" using d by simp
  show "servers s =
      (if https_addr e \<noteq> [] then [HTTPS] else []) @ (if http_addr e \<noteq> [] then [HTTP] else [])"
    using b servers by simp
  show acq: "acquired (trace s) =
      [PriceDB, HTTPCache, PriceFetcher, AppraisalDB, StaticFetcher] @ map Server (servers s) @
      [Server Management]"
    using b d servers by simp
  have "filter (\<lambda>r. \<not> is_typedb r) (released (trace s)) =
      filter (\<lambda>r. \<not> is_typedb r) (concat (map releases_of (defers s0)))"
    using b d by simp
  also have "concat (map releases_of (defers s0)) =
      Server Management # rev (map Server (servers s)) @
      [StaticFetcher, AppraisalDB, PriceFetcher, PriceDB, HTTPCache, PriceDB]"
    using b by (simp add: servers releases_of_shutdowns store_defers_def)
  finally show "filter (\<lambda>r. r \<noteq> PriceDB) (filter (\<lambda>r. \<not> is_typedb r) (released (trace s))) =
      rev (filter (\<lambda>r. r \<noteq> PriceDB) (acquired (trace s)))"
    by (simp add: acq filter_map comp_def rev_map)
qed

theorem release_in_reverse_order_witness:
  "(case appMain env_ok of
      Inl fatal \<Rightarrow> False
    | Inr s \<Rightarrow>
        filter (\<lambda>r. r \<noteq> PriceDB) (filter (\<lambda>r. \<not> is_typedb r) (released (trace s))) =
          [Server Management, Server HTTP, Server HTTPS, StaticFetcher, AppraisalDB,
           PriceFetcher, HTTPCache])
   \<and> (case run (appMain_body env_no_cache) initial of
        Inl fatal \<Rightarrow> unreleased fatal
      | Inr s \<Rightarrow> False)"
proof -
  obtain s where s: "appMain env_ok = Inr s" and "servers s = [HTTPS, HTTP]"
    using appMain_env_ok by blast
  then have "filter (\<lambda>r. r \<noteq> PriceDB) (filter (\<lambda>r. \<not> is_typedb r) (released (trace s))) =
      [Server Management, Server HTTP, Server HTTPS, StaticFetcher, AppraisalDB,
       PriceFetcher, HTTPCache]"
    using release_in_reverse_order [of env_ok] by simp
  moreover have "unreleased
      [Println ''Starting price DB'', Opened PriceDB, Fatalf ''Couldn't start httpCache: timeout'']"
    using release_in_reverse_order [of env_no_cache] appMain_env_no_cache(2) by blast
  ultimately show ?thesis
    by (simp add: s appMain_env_no_cache(2))
qed

text \<open>
  C7 as stated fails.  In the run in which nothing fails, the appraisal database (a data
  store) is acquired after the price fetcher (a fetcher), the price database is closed
  twice, and the releases are not the reverse of the acquisitions.  In the run in which
  the HTTP cache cannot be opened, the process ends with the price database acquired and
  never released.
\<close>

theorem release_order_counterexample:
  "(case appMain env_ok of
      Inl fatal \<Rightarrow> False
    | Inr s \<Rightarrow>
        acquired (trace s) =
          [PriceDB, HTTPCache, PriceFetcher, AppraisalDB, StaticFetcher, Server HTTPS,
           Server HTTP, Server Management]
        \<and> map kind (acquired (trace s)) = [0, 0, 1, 0, 1, 2, 2, 2]
        \<and> released (trace s) =
          [Server Management, Server HTTP, Server HTTPS, StaticFetcher, TypeDBHandle 1,
           AppraisalDB, PriceFetcher, PriceDB, HTTPCache, PriceDB]
        \<and> released (trace s) \<noteq> rev (acquired (trace s)))
   \<and> (case appMain env_no_cache of
        Inl fatal \<Rightarrow> acquired fatal = [PriceDB] \<and> released fatal = []
      | Inr s \<Rightarrow> False)"
proof -
  obtain s where s: "appMain env_ok = Inr s" and tr: "trace s =
       [Println ''Starting price DB'', Opened PriceDB, Opened HTTPCache, Opened PriceFetcher,
        Println ''Starting appraisal DB'', Opened AppraisalDB, Println ''Starting type fetcher'',
        Opened StaticFetcher,
        Println ''Starting HTTPS server (:443) ([evepraisal.com])'',
        Opened (Server HTTPS),
        Println ''Starting HTTP server (:80)'', Opened (Server HTTP),
        Println ''Starting Management HTTP server (:8090)'', Opened (Server Management),
        SetTypeDB 1, SetParser (ContextMultiParser 1 (parserList 1)),
        Println ''Shutting down'', Closed (Server Management),
        ShutdownCalled HTTP 60000, ShutdownReturned HTTP 60000 True,
        ShutdownCalled HTTPS 60000, ShutdownReturned HTTPS 60000 False,
        Closed StaticFetcher, Closed (TypeDBHandle 1),
        Closed AppraisalDB, Closed PriceFetcher, Closed PriceDB, Closed HTTPCache,
        Closed PriceDB]"
    using appMain_env_ok by blast
  show ?thesis
    by (simp add: s appMain_env_no_cache(1)) (simp add: tr acquired_def released_def)
qed

subsection \<open>Shutdown\<close>

lemma run_deferred_clock:
  "run_deferred e d s = Inr s' \<Longrightarrow>
   (case d of
      DeferShutdown l c \<Rightarrow>
        filter is_shutdown (trace s') =
          filter is_shutdown (trace s) @
          [ShutdownCalled l (now s),
           ShutdownReturned l (fst (Shutdown c (now s) (inflight e l)))
             (snd (Shutdown c (now s) (inflight e l)))]
        \<and> now s' = fst (Shutdown c (now s) (inflight e l))
    | _ \<Rightarrow> filter is_shutdown (trace s') = filter is_shutdown (trace s) \<and> now s' = now s)"
proof (cases d)
  case (DeferClose r fmt)
  then show "run_deferred e d s = Inr s' \<Longrightarrow> ?thesis"
    by (auto simp: close_or_fatal_Inr state_fields)
next
  case DeferCloseStaticFetcher
  then show "run_deferred e d s = Inr s' \<Longrightarrow> ?thesis"
    unfolding DeferCloseStaticFetcher run_deferred.simps run_Cons_Inr run.simps(1)
      close_or_fatal_Inr
    by (auto simp: close_or_fatal_Inr state_fields split: option.splits dest!: tick_reading)
next
  case (DeferShutdown l c)
  then show "run_deferred e d s = Inr s' \<Longrightarrow> ?thesis"
    unfolding DeferShutdown run_deferred.simps run_Cons_Inr run.simps(1) ok_Inr
    by (auto simp: state_fields case_prod_beta max_absorb2 Shutdown_not_before
        dest!: tick_reading)
next
  case (DeferCloseServer l)
  then show "run_deferred e d s = Inr s' \<Longrightarrow> ?thesis"
    unfolding DeferCloseServer run_deferred.simps run_Cons_Inr run.simps(1) ok_Inr
    by (auto simp: state_fields dest!: tick_reading)
qed

lemma run_deferred_step_clock:
  "tick s = Inr s0 \<Longrightarrow> run_deferred e d s0 = Inr s' \<Longrightarrow>
   (case d of
      DeferShutdown l c \<Rightarrow>
        filter is_shutdown (trace s') =
          filter is_shutdown (trace s) @
          [ShutdownCalled l (now s),
           ShutdownReturned l (fst (Shutdown c (now s) (inflight e l)))
             (snd (Shutdown c (now s) (inflight e l)))]
        \<and> now s' = fst (Shutdown c (now s) (inflight e l))
    | _ \<Rightarrow> filter is_shutdown (trace s') = filter is_shutdown (trace s) \<and> now s' = now s)"
  by (drule tick_reading, drule run_deferred_clock) (simp split: deferred.splits)

lemma run_store_defers_clock:
  assumes "run (map (run_deferred e) store_defers) s = Inr s'"
  shows "filter is_shutdown (trace s') = filter is_shutdown (trace s)"
  using assms unfolding store_defers_def list.map run_Cons_Inr run.simps(1)
  by (auto dest!: run_deferred_clock tick_reading simp del: run_deferred.simps)

text \<open>
  C6, as the code has it.  With both public listeners configured, the deferred calls shut
  the listeners down one after the other, in the reverse order of their start: the
  management server is closed, then \<^verbatim>\<open>Shutdown\<close> of the HTTP listener is called at
  the moment the interrupt is handled, and \<^verbatim>\<open>Shutdown\<close> of the HTTPS listener is
  called at the moment the call for the HTTP listener returns.  Both calls get a context
  of their own, made at start-up, whose deadline lies five seconds after start-up.
\<close>

theorem shutdowns_run_one_after_the_other:
  assumes "appMain e = Inr s" and "https_addr e \<noteq> []" and "http_addr e \<noteq> []"
  shows "filter is_shutdown (trace s) =
     (let interrupted = max (started_at e) (stop_at e);
          http = Shutdown (stopCtx e) interrupted (inflight e HTTP);
          https = Shutdown (stopCtx e) (fst http) (inflight e HTTPS)
      in [ShutdownCalled HTTP interrupted, ShutdownReturned HTTP (fst http) (snd http),
          ShutdownCalled HTTPS (fst http), ShutdownReturned HTTPS (fst https) (snd https)])
     \<and> stopCtx e = \<lparr>deadline = 6000, cancelled_at = 11000\<rparr>"
proof -
  from assms(1) obtain s0 where body: "run (appMain_body e) initial = Inr s0"
    and deferred: "run (map (run_deferred e) (defers s0)) s0 = Inr s"
    by (rule appMain_Inr)
  note b = appMain_body_Inr [OF body]
  have defers: "defers s0 =
      DeferCloseServer Management # DeferShutdown HTTP (stopCtx e) #
      DeferShutdown HTTPS (stopCtx e) # store_defers"
    using b assms(2,3) by simp
  from deferred obtain t1 s1 t2 s2 t3 s3 where
    t1: "tick s0 = Inr t1"
    and 1: "run_deferred e (DeferCloseServer Management) t1 = Inr s1"
    and t2: "tick s1 = Inr t2"
    and 2: "run_deferred e (DeferShutdown HTTP (stopCtx e)) t2 = Inr s2"
    and t3: "tick s2 = Inr t3"
    and 3: "run_deferred e (DeferShutdown HTTPS (stopCtx e)) t3 = Inr s3"
    and 4: "run (map (run_deferred e) store_defers) s3 = Inr s"
    unfolding defers list.map run_Cons_Inr by blast
  have c1: "filter is_shutdown (trace s1) = []" "now s1 = max (started_at e) (stop_at e)"
    using run_deferred_step_clock [OF t1 1] b by simp_all
  have c2: "filter is_shutdown (trace s2) =
      [ShutdownCalled HTTP (now s1),
       ShutdownReturned HTTP (fst (Shutdown (stopCtx e) (now s1) (inflight e HTTP)))
         (snd (Shutdown (stopCtx e) (now s1) (inflight e HTTP)))]"
    "now s2 = fst (Shutdown (stopCtx e) (now s1) (inflight e HTTP))"
    using run_deferred_step_clock [OF t2 2] c1 by simp_all
  have c3: "filter is_shutdown (trace s3) =
      filter is_shutdown (trace s2) @
      [ShutdownCalled HTTPS (now s2),
       ShutdownReturned HTTPS (fst (Shutdown (stopCtx e) (now s2) (inflight e HTTPS)))
         (snd (Shutdown (stopCtx e) (now s2) (inflight e HTTPS)))]"
    using run_deferred_step_clock [OF t3 3] by simp
  have "filter is_shutdown (trace s) = filter is_shutdown (trace s3)"
    using 4 by (rule run_store_defers_clock)
  moreover have "stopCtx e = \<lparr>deadline = 6000, cancelled_at = 11000\<rparr>"
    using assms(2) by (simp add: stopCtx_def started_at_def)
  ultimately show ?thesis
    by (simp add: c3 c2 c1 Let_def)
qed

theorem shutdowns_run_one_after_the_other_witness:
  "https_addr env_early_stop \<noteq> [] \<and> http_addr env_early_stop \<noteq> []
   \<and> (\<exists>s. appMain env_early_stop = Inr s
        \<and> take 3 (filter is_shutdown (trace s)) =
            [ShutdownCalled HTTP 2000,
             ShutdownReturned HTTP
               (fst (Shutdown \<lparr>deadline = 6000, cancelled_at = 11000\<rparr> 2000 [5000]))
               (snd (Shutdown \<lparr>deadline = 6000, cancelled_at = 11000\<rparr> 2000 [5000])),
             ShutdownCalled HTTPS
               (fst (Shutdown \<lparr>deadline = 6000, cancelled_at = 11000\<rparr> 2000 [5000]))])"
proof -
  obtain s where s: "appMain env_early_stop = Inr s"
    using appMain_env_early_stop by blast
  have a: "https_addr env_early_stop \<noteq> []" and b: "http_addr env_early_stop \<noteq> []"
    by (simp_all add: env_early_stop_fields)
  show ?thesis
    using shutdowns_run_one_after_the_other [OF s a b] a b s
    by (simp add: Let_def env_early_stop_fields started_at_def)
qed

text \<open>
  C6 as stated fails.  The interrupt arrives two seconds after the start; a request on the
  HTTP listener finishes at five seconds, one on the HTTPS listener at five and a half.
  The HTTPS listener is not told to shut down when the interrupt arrives but at five
  seconds, when the HTTP listener has drained: the listeners are drained in sequence.
\<close>

theorem shutdowns_sequential_counterexample:
  "stop_at env_early_stop = 2000
   \<and> (case appMain env_early_stop of
        Inl fatal \<Rightarrow> False
      | Inr s \<Rightarrow>
          filter is_shutdown (trace s) =
            [ShutdownCalled HTTP 2000, ShutdownReturned HTTP 5000 False,
             ShutdownCalled HTTPS 5000, ShutdownReturned HTTPS 5500 False])"
proof -
  obtain s where "appMain env_early_stop = Inr s" and "filter is_shutdown (trace s) =
       [ShutdownCalled HTTP 2000, ShutdownReturned HTTP 5000 False,
        ShutdownCalled HTTPS 5000, ShutdownReturned HTTPS 5500 False]"
    using appMain_env_early_stop by blast
  then show ?thesis
    by (simp add: env_early_stop_fields)
qed

text \<open>
  C5 fails on the code.  The context handed to \<^verbatim>\<open>Shutdown\<close> is made when the servers
  are started, so its five seconds run from start-up, not from the interrupt.  With the
  interrupt a minute after the start and a request on the HTTP listener that needs one
  more second, \<^verbatim>\<open>Shutdown\<close> of the HTTP listener returns the context's error at
  the very moment it is called: the request gets no grace time at all.
\<close>

theorem shutdown_context_expired_before_interrupt:
  "stop_at env_ok = 60000 \<and> inflight env_ok HTTP = [61000]
   \<and> (case appMain env_ok of
        Inl fatal \<Rightarrow> False
      | Inr s \<Rightarrow>
          filter is_shutdown (trace s) =
            [ShutdownCalled HTTP 60000, ShutdownReturned HTTP 60000 True,
             ShutdownCalled HTTPS 60000, ShutdownReturned HTTPS 60000 False])"
proof -
  obtain s where s: "appMain env_ok = Inr s" and tr: "trace s =
       [Println ''Starting price DB'', Opened PriceDB, Opened HTTPCache, Opened PriceFetcher,
        Println ''Starting appraisal DB'', Opened AppraisalDB, Println ''Starting type fetcher'',
        Opened StaticFetcher,
        Println ''Starting HTTPS server (:443) ([evepraisal.com])'',
        Opened (Server HTTPS),
        Println ''Starting HTTP server (:80)'', Opened (Server HTTP),
        Println ''Starting Management HTTP server (:8090)'', Opened (Server Management),
        SetTypeDB 1, SetParser (ContextMultiParser 1 (parserList 1)),
        Println ''Shutting down'', Closed (Server Management),
        ShutdownCalled HTTP 60000, ShutdownReturned HTTP 60000 True,
        ShutdownCalled HTTPS 60000, ShutdownReturned HTTPS 60000 False,
        Closed StaticFetcher, Closed (TypeDBHandle 1),
        Closed AppraisalDB, Closed PriceFetcher, Closed PriceDB, Closed HTTPCache,
        Closed PriceDB]"
    using appMain_env_ok by blast
  show ?thesis
    by (simp add: s env_ok_fields) (simp add: tr)
qed

subsection \<open>A listener that cannot serve\<close>

lemma tick_fatal:
  "(l, err, 0) \<in> set (goroutines s) \<Longrightarrow> err \<noteq> ErrServerClosed \<Longrightarrow> \<exists>fatal. tick s = Inl fatal"
  unfolding tick_def by (rule run_goroutines_fatal)

text \<open>
  C9, as the code has it.  Whatever listener it is, when \<^verbatim>\<open>ListenAndServe\<close> has
  returned an error other than \<^verbatim>\<open>ErrServerClosed\<close>, the rest of the serving
  goroutine is \<^verbatim>\<open>log.Fatalf\<close>: the statement that starts the listener leaves that
  goroutine waiting for its turn, and at its turn the whole process ends, whatever the
  main goroutine was about to do.  The listeners that are started are the HTTPS and the
  HTTP listener when their address is not empty, and the management listener always.
  When \<^verbatim>\<open>appMain\<close> returns normally, every started listener that could not serve has
  a goroutine that never had its turn: no listener is skipped after a failure.
\<close>

theorem failed_listener_ends_process:
  "serve_goroutine l (Some (OtherError text)) s =
     Inl (trace s @ [Fatalf (listener_name l @ '' server failure: '' @ text)])
   \<and> (serve_err e l = Some (OtherError text) \<longrightarrow>
        (l, OtherError text, scheduled_after e l) \<in> set (goroutines (start_serving e l s)))
   \<and> ((l, OtherError text, 0) \<in> set (goroutines s) \<longrightarrow>
        (\<exists>fatal. run (st # steps) s = Inl fatal))
   \<and> (\<forall>s'. appMain e = Inr s' \<longrightarrow>
        servers s' =
          (if https_addr e \<noteq> [] then [HTTPS] else []) @ (if http_addr e \<noteq> [] then [HTTP] else [])
        \<and> filter (\<lambda>r. kind r = 2) (acquired (trace s')) =
            map Server (servers s') @ [Server Management]
        \<and> failed s' = filter (cannot_serve e) (servers s' @ [Management]))"
proof -
  have goroutine: "serve_goroutine l (Some (OtherError text)) s =
      Inl (trace s @ [Fatalf (listener_name l @ '' server failure: '' @ text)])"
    by (simp add: serve_goroutine_def fatalf_def)
  have started: "(l, OtherError text, scheduled_after e l) \<in> set (goroutines (start_serving e l s))"
    if "serve_err e l = Some (OtherError text)"
    using that by (simp add: start_serving_fields)
  have turn: "\<exists>fatal. run (st # steps) s = Inl fatal"
    if "(l, OtherError text, 0) \<in> set (goroutines s)"
  proof -
    from that obtain fatal where "tick s = Inl fatal"
      using tick_fatal [of l "OtherError text" s] by auto
    then show ?thesis by simp
  qed
  have returned: "servers s' =
        (if https_addr e \<noteq> [] then [HTTPS] else []) @ (if http_addr e \<noteq> [] then [HTTP] else [])
      \<and> filter (\<lambda>r. kind r = 2) (acquired (trace s')) =
          map Server (servers s') @ [Server Management]
      \<and> failed s' = filter (cannot_serve e) (servers s' @ [Management])"
    if "appMain e = Inr s'" for s'
  proof -
    from that obtain s0 where body: "run (appMain_body e) initial = Inr s0"
      and deferred: "run (map (run_deferred e) (defers s0)) s0 = Inr s'"
      by (rule appMain_Inr)
    note b = appMain_body_Inr [OF body]
    note d = run_defers_reading [OF deferred]
    have servers: "servers s' = servers s0" using d by simp
    have "acquired (trace s') =
        [PriceDB, HTTPCache, PriceFetcher, AppraisalDB, StaticFetcher] @ map Server (servers s') @
        [Server Management]"
      using b d servers by simp
    then have "filter (\<lambda>r. kind r = 2) (acquired (trace s')) =
        map Server (servers s') @ [Server Management]"
      by (simp add: filter_map comp_def)
    moreover have "failed s' = filter (cannot_serve e) (servers s' @ [Management])"
      using b d servers by simp
    moreover have "servers s' =
        (if https_addr e \<noteq> [] then [HTTPS] else []) @ (if http_addr e \<noteq> [] then [HTTP] else [])"
      using b servers by simp
    ultimately show ?thesis by blast
  qed
  from goroutine started turn returned show ?thesis
    by blast
qed

theorem failed_listener_ends_process_witness:
  "serve_err env_mgmt_unset Management = Some (OtherError ''permission denied'')
   \<and> (Management, OtherError ''permission denied'', 0) \<in>
       set (goroutines (start_serving env_mgmt_unset Management initial))
   \<and> (\<exists>fatal. run [ok (wait_for_stop env_mgmt_unset)]
                  (start_serving env_mgmt_unset Management initial) = Inl fatal)
   \<and> (\<exists>s'. appMain env_ok = Inr s'
         \<and> servers s' = [HTTPS, HTTP]
         \<and> filter (\<lambda>r. kind r = 2) (acquired (trace s')) =
             [Server HTTPS, Server HTTP, Server Management]
         \<and> failed s' = [])"
proof -
  obtain s' where s': "appMain env_ok = Inr s'" "servers s' = [HTTPS, HTTP]"
    using appMain_env_ok by blast
  have err: "serve_err env_mgmt_unset Management = Some (OtherError ''permission denied'')"
    by (simp add: env_mgmt_unset_fields)
  have waiting: "(Management, OtherError ''permission denied'', 0) \<in>
      set (goroutines (start_serving env_mgmt_unset Management initial))"
    using failed_listener_ends_process [of Management "''permission denied''" initial
        env_mgmt_unset] err
    by (simp add: env_mgmt_unset_fields)
  have "\<exists>fatal. run [ok (wait_for_stop env_mgmt_unset)]
      (start_serving env_mgmt_unset Management initial) = Inl fatal"
    using failed_listener_ends_process [of Management "''permission denied''"
        "start_serving env_mgmt_unset Management initial" env_mgmt_unset
        "ok (wait_for_stop env_mgmt_unset)" "[]"] waiting
    by blast
  moreover have "filter (\<lambda>r. kind r = 2) (acquired (trace s')) =
        [Server HTTPS, Server HTTP, Server Management] \<and> failed s' = []"
    using failed_listener_ends_process [of Management "''permission denied''" initial env_ok] s'
    by (simp add: cannot_serve_def env_ok_fields)
  ultimately show ?thesis
    using err waiting s' by blast
qed

text \<open>
  C9 as stated fails.  The source has no notion of a required listener, and no listener
  is ever skipped with a warning.  With an HTTP listener that cannot bind, the process
  ends although the HTTPS and the management listener serve: the main goroutine has
  started the management listener and waits for the interrupt when the goroutine of the
  HTTP listener has its turn.  With no management address configured at all, the
  management listener is started all the same, and its failure ends the process and with
  it the two public listeners.
\<close>

theorem listener_failure_counterexample:
  "serve_err env_http_in_use HTTPS = None \<and> serve_err env_http_in_use Management = None
   \<and> appMain env_http_in_use =
       Inl [Println ''Starting price DB'', Opened PriceDB, Opened HTTPCache,
            Opened PriceFetcher, Println ''Starting appraisal DB'', Opened AppraisalDB,
            Println ''Starting type fetcher'', Opened StaticFetcher,
            Println ''Starting HTTPS server (:443) ([evepraisal.com])'',
            Opened (Server HTTPS),
            Println ''Starting HTTP server (:80)'', Opened (Server HTTP),
            Println ''Starting Management HTTP server (:8090)'', Opened (Server Management),
            Fatalf ''HTTP server failure: address already in use'']
   \<and> management_addr env_mgmt_unset = []
   \<and> appMain env_mgmt_unset =
       Inl [Println ''Starting price DB'', Opened PriceDB, Opened HTTPCache,
            Opened PriceFetcher, Println ''Starting appraisal DB'', Opened AppraisalDB,
            Println ''Starting type fetcher'', Opened StaticFetcher,
            Println ''Starting HTTPS server (:443) ([evepraisal.com])'',
            Opened (Server HTTPS),
            Println ''Starting HTTP server (:80)'', Opened (Server HTTP),
            Println ''Starting Management HTTP server ()'', Opened (Server Management),
            Fatalf ''Management HTTP server failure: permission denied'']"
  by (simp add: appMain_env_http_in_use appMain_env_mgmt_unset env_mgmt_unset_fields
      env_http_in_use_fields)

subsection \<open>Requests before the first refresh\<close>


section \<open>Retirement of the outgoing type database\<close>

lemma typedb_closed_typeDBCallback:
  "typedb_closed (typeDBCallback t s) h = (typedb_closed s h \<or> TypeDB (app s) = Some h)"
  by (auto simp: typedb_closed_def trace_typeDBCallback split: option.splits)

lemma typedb_closed_installs_mono: "typedb_closed s h \<Longrightarrow> typedb_closed (installs ts s) h"
  by (induction ts arbitrary: s) (simp_all add: typedb_closed_typeDBCallback)

lemma close_static_fetcher_closes_current:
  assumes "run_deferred e DeferCloseStaticFetcher s = Inr s'" and "TypeDB (app s) = Some h"
  shows "typedb_closed s' h"
proof -
  from assms(1) obtain t1 s1 t2 where t1: "tick s = Inr t1"
    and s1: "s1 = emit (Closed StaticFetcher) t1"
    and t2: "tick s1 = Inr t2"
    and last: "(case TypeDB (app t2) of
        None \<Rightarrow> Inr t2
      | Some typeDB \<Rightarrow>
          close_or_fatal e (TypeDBHandle typeDB) ''Problem closing typeDB: '' t2) = Inr s'"
    unfolding run_deferred.simps run_Cons_Inr run.simps(1) close_or_fatal_Inr by blast
  have "app t2 = app s"
    using tick_reading [OF t1] tick_reading [OF t2] by (simp add: s1 emit_fields)
  with last assms(2) have "s' = emit (Closed (TypeDBHandle h)) t2"
    by (simp add: close_or_fatal_Inr)
  then show ?thesis
    by (simp add: typedb_closed_def emit_fields)
qed

text \<open>
  C1, as the code has it.  Let \<open>h\<close> be the current type database, the one a request
  captures.  A refresh callback assigns \<^verbatim>\<open>app.TypeDB\<close>, assigns \<^verbatim>\<open>app.Parser\<close> and
  then, in the same invocation and without waiting for anybody, logs, closes \<open>h\<close> and
  logs again.  So after any sequence of refresh callbacks, \<open>h\<close> is closed exactly if it
  was closed before or at least one callback ran.  A current type database that no
  callback replaces is closed by the deferred function of lines 135-147 when
  \<^verbatim>\<open>appMain\<close> returns.
\<close>

theorem outgoing_typedb_closed_at_once:
  assumes "TypeDB (app s) = Some h"
  shows "trace (typeDBCallback t s) =
       trace s @
       [SetTypeDB t, SetParser (ContextMultiParser t (parserList t)),
        Println ''closeing old typedb'', Closed (TypeDBHandle h),
        Println ''closed old typedb'']
   \<and> typedb_closed (installs ts s) h = (typedb_closed s h \<or> ts \<noteq> [])
   \<and> (\<forall>s'. run_deferred e DeferCloseStaticFetcher s = Inr s' \<longrightarrow> typedb_closed s' h)"
proof -
  have callback: "trace (typeDBCallback t s) =
       trace s @
       [SetTypeDB t, SetParser (ContextMultiParser t (parserList t)),
        Println ''closeing old typedb'', Closed (TypeDBHandle h),
        Println ''closed old typedb'']"
    using assms by (simp add: trace_typeDBCallback)
  have installs: "typedb_closed (installs ts s) h = (typedb_closed s h \<or> ts \<noteq> [])"
  proof (cases ts)
    case Nil
    then show ?thesis by simp
  next
    case (Cons t' rest)
    have "typedb_closed (typeDBCallback t' s) h"
      using assms by (simp add: typedb_closed_typeDBCallback)
    then have "typedb_closed (installs rest (typeDBCallback t' s)) h"
      by (rule typedb_closed_installs_mono)
    with Cons show ?thesis by simp
  qed
  from callback installs close_static_fetcher_closes_current [OF _ assms] show ?thesis
    by blast
qed

theorem outgoing_typedb_closed_at_once_witness:
  "TypeDB (app (installs [0] initial)) = Some 0
   \<and> \<not> typedb_closed (installs [0] initial) 0
   \<and> typedb_closed (installs [1, 2] (installs [0] initial)) 0
   \<and> (case run_deferred env_ok DeferCloseStaticFetcher (installs [0] initial) of
        Inl fatal \<Rightarrow> False
      | Inr s' \<Rightarrow> typedb_closed s' 0)"
proof -
  have h: "TypeDB (app (installs [0] initial)) = Some 0"
    by (simp add: app_typeDBCallback)
  have open0: "\<not> typedb_closed (installs [0] initial) 0"
    by (simp add: typedb_closed_def trace_typeDBCallback initial_fields)
  obtain s' where s': "run_deferred env_ok DeferCloseStaticFetcher (installs [0] initial) = Inr s'"
    by (simp add: eval_steps env_ok_fields)
  show ?thesis
    using outgoing_typedb_closed_at_once [OF h, of 1 "[1, 2]" env_ok] h open0 s'
    by simp
qed

text \<open>
  C1 as stated fails: generation 0 is current and open, a request captures it, one install
  of generation 1 runs to completion, and generation 0 is closed while the request still
  holds it.
\<close>

theorem captured_snapshot_closed_by_install:
  "TypeDB (app installed0) = Some 0
   \<and> \<not> typedb_closed installed0 0
   \<and> typedb_closed (typeDBCallback 1 installed0) 0"
  by (simp add: typedb_closed_typeDBCallback)
    (simp add: installed0_def fresh_def typedb_closed_def app_typeDBCallback trace_typeDBCallback)

end
